theory Spec2Isabelle
  imports Main "HOL-Library.Char_ord" "HOL-Library.List_Lexorder"
begin

section \<open>JavaScript strings\<close>

text \<open>
  A JavaScript string is modelled as a \<^typ>\<open>string\<close>: a list of 8-bit characters, read as
  the code units 0 to 255 of the source's UTF-16 strings. \<open>length\<close> is the source's
  \<open>.length\<close>, and the order on strings (lexicographic, by code unit) is the one SQLite
  uses to compare TEXT values.
\<close>

definition is_space :: "char \<Rightarrow> bool" where
  \<comment> \<open>the white space and line terminators that \<open>trim()\<close> and the class \<open>\s\<close> recognise\<close>
  "is_space c =
     (c \<in> {CHR 0x09, CHR 0x0A, CHR 0x0B, CHR 0x0C, CHR 0x0D, CHR '' '', CHR 0xA0})"

definition is_word :: "char \<Rightarrow> bool" where
  \<comment> \<open>the class \<open>\w\<close>\<close>
  "is_word c =
     ((CHR ''a'' \<le> c \<and> c \<le> CHR ''z'') \<or> (CHR ''A'' \<le> c \<and> c \<le> CHR ''Z'') \<or>
      (CHR ''0'' \<le> c \<and> c \<le> CHR ''9'') \<or> c = CHR ''_'')"

fun add_0x20 :: "char \<Rightarrow> char" where
  "add_0x20 (Char b0 b1 b2 b3 b4 b5 b6 b7) = Char b0 b1 b2 b3 b4 True b6 b7"

definition toLowerChar :: "char \<Rightarrow> char" where
  \<comment> \<open>A to Z, and the capital letters 0xC0 to 0xDE of Latin-1 (0xD7 is the multiplication
      sign); the small letter is 0x20 above the capital one\<close>
  "toLowerChar c =
     (if (CHR ''A'' \<le> c \<and> c \<le> CHR ''Z'') \<or> (CHR 0xC0 \<le> c \<and> c \<le> CHR 0xDE \<and> c \<noteq> CHR 0xD7)
      then add_0x20 c else c)"

definition toLowerCase :: "string \<Rightarrow> string" where
  "toLowerCase s = map toLowerChar s"

definition trim :: "string \<Rightarrow> string" where
  "trim s = rev (dropWhile is_space (rev (dropWhile is_space s)))"

definition includes_char :: "string \<Rightarrow> char \<Rightarrow> bool" where
  \<comment> \<open>\<open>s.includes(c)\<close> for a one-character argument\<close>
  "includes_char s c = (c \<in> set s)"

fun split :: "char \<Rightarrow> string \<Rightarrow> string list" where
  \<comment> \<open>\<open>s.split(sep)\<close> for a one-character separator; the empty string gives one empty segment\<close>
  "split sep [] = [[]]"
| "split sep (c # cs) =
     (if c = sep then [] # split sep cs
      else (case split sep cs of [] \<Rightarrow> [[c]] | w # ws \<Rightarrow> (c # w) # ws))"

function replaceAll :: "(string \<Rightarrow> nat option) \<Rightarrow> string \<Rightarrow> string" where
  \<comment> \<open>\<open>s.replace(/re/g, '')\<close>: the matcher gives the length of the match of the expression
      that starts at the head of its argument, if there is one. The scan goes from left to
      right and resumes behind each match. Both expressions below match one character at
      least.\<close>
  "replaceAll m [] = []"
| "replaceAll m (c # cs) =
     (case m (c # cs) of
        Some n \<Rightarrow> replaceAll m (drop (n - 1) cs)
      | None \<Rightarrow> c # replaceAll m cs)"
  by pat_completeness auto
termination
  by (relation "measure (\<lambda>(m, s). length s)") auto

definition match_angle :: "string \<Rightarrow> nat option" where
  \<comment> \<open>\<open>/[<>]/\<close>\<close>
  "match_angle s =
     (case s of [] \<Rightarrow> None
      | c # cs \<Rightarrow> if c = CHR ''<'' \<or> c = CHR ''>'' then Some 1 else None)"

definition match_javascript :: "string \<Rightarrow> nat option" where
  \<comment> \<open>\<open>/javascript:/i\<close>\<close>
  "match_javascript s =
     (if toLowerCase (take 11 s) = ''javascript:'' then Some 11 else None)"

definition match_on_handler :: "string \<Rightarrow> nat option" where
  \<comment> \<open>\<open>/on\w+=/i\<close>: \<open>=\<close> is no word character, so the greedy \<open>\w+\<close> can only succeed on the
      whole run of word characters behind \<open>on\<close>\<close>
  "match_on_handler s =
     (case s of
        c1 # c2 # rest \<Rightarrow>
          if toLowerChar c1 = CHR ''o'' \<and> toLowerChar c2 = CHR ''n'' \<and> takeWhile is_word rest \<noteq> []
             \<and> (case dropWhile is_word rest of [] \<Rightarrow> False | e # _ \<Rightarrow> e = CHR ''='')
          then Some (2 + length (takeWhile is_word rest) + 1)
          else None
      | _ \<Rightarrow> None)"

definition sanitizeInput :: "string \<Rightarrow> string" where
  \<comment> \<open>middleware/auth.js, on a string argument\<close>
  "sanitizeInput input =
     trim (replaceAll match_on_handler (replaceAll match_javascript (replaceAll match_angle input)))"


section \<open>Values, rows and the database\<close>

text \<open>
  A property of a parsed request body is absent (\<open>undefined\<close>), \<open>null\<close>, a boolean, a number
  or a string; arrays and nested objects in a request are outside the model, and a number
  is an integer. A request body is the function from property names to values.
\<close>

datatype jsval = Undefined | Null | Bool bool | Num int | Str string

type_synonym req_body = "string \<Rightarrow> jsval"

fun truthy :: "jsval \<Rightarrow> bool" where
  "truthy Undefined = False"
| "truthy Null = False"
| "truthy (Bool b) = b"
| "truthy (Num n) = (n \<noteq> 0)"
| "truthy (Str s) = (s \<noteq> [])"

fun is_string :: "jsval \<Rightarrow> bool" where
  \<comment> \<open>\<open>typeof v === 'string'\<close>\<close>
  "is_string (Str s) = True"
| "is_string _ = False"

fun the_string :: "jsval \<Rightarrow> string" where
  \<comment> \<open>the characters of a value that a check before has shown to be a string\<close>
  "the_string (Str s) = s"
| "the_string _ = []"

text \<open>What a handler sends: the status code and the JSON document of \<open>res.status(c).json(d)\<close>.\<close>

datatype json = JNull | JBool bool | JNum int | JStr string
  | JArr "json list" | JObj "(string \<times> json) list"

record response =
  statusCode :: nat
  body :: json

definition send :: "nat \<Rightarrow> (string \<times> json) list \<Rightarrow> response" where
  "send code props = \<lparr>statusCode = code, body = JObj props\<rparr>"

fun json_get :: "json \<Rightarrow> string \<Rightarrow> json" where
  \<comment> \<open>the property \<open>k\<close> of a JSON object, as a client reads it from a response\<close>
  "json_get (JObj props) k = (case map_of props k of Some v \<Rightarrow> v | None \<Rightarrow> JNull)"
| "json_get _ k = JNull"

text \<open>
  The SQLite data layer (the first database module; the routes in \<open>auth.js\<close> use its
  placeholders and its \<open>lastID\<close>). A column holds the value that the driver bound to the
  statement: NULL, an integer or a text. The conversions of SQLite's column affinity are
  outside the model. The integer primary keys come from the AUTOINCREMENT sequence of the
  table; \<open>CURRENT_TIMESTAMP\<close> is a parameter of the operations.
\<close>

datatype sqlval = SqlNull | SqlInt int | SqlText string

fun bind :: "jsval \<Rightarrow> sqlval" where
  "bind Undefined = SqlNull"
| "bind Null = SqlNull"
| "bind (Bool b) = SqlInt (if b then 1 else 0)"
| "bind (Num n) = SqlInt n"
| "bind (Str s) = SqlText s"

fun json_of_sql :: "sqlval \<Rightarrow> json" where
  "json_of_sql SqlNull = JNull"
| "json_of_sql (SqlInt n) = JNum n"
| "json_of_sql (SqlText s) = JStr s"

record user_row =
  u_id :: nat
  u_name :: string
  u_email :: string
  u_password :: string
  u_created_at :: string
  u_updated_at :: string

record task_row =
  t_id :: nat
  t_title :: string
  t_description :: string
  t_status :: sqlval
  t_user_id :: nat
  t_created_at :: string
  t_updated_at :: string
  t_deadline :: sqlval
  t_reminder_time :: sqlval

record database =
  users :: "user_row list"
  tasks :: "task_row list"
  users_seq :: nat
  tasks_seq :: nat

definition db_inv :: "database \<Rightarrow> bool" where
  \<comment> \<open>what the schema enforces: the primary keys, the sequences, UNIQUE on \<open>users.email\<close>
      and the foreign key of \<open>tasks.user_id\<close> (\<open>PRAGMA foreign_keys = ON\<close>)\<close>
  "db_inv db =
     (distinct (map u_id (users db)) \<and> distinct (map t_id (tasks db)) \<and>
      distinct (map u_email (users db)) \<and>
      (\<forall>u \<in> set (users db). u_id u \<le> users_seq db) \<and>
      (\<forall>t \<in> set (tasks db). t_id t \<le> tasks_seq db) \<and>
      (\<forall>t \<in> set (tasks db). t_user_id t \<in> u_id ` set (users db)))"

text \<open>SQL comparisons have three values; \<open>None\<close> is NULL (unknown).\<close>

fun sql_le :: "sqlval \<Rightarrow> sqlval \<Rightarrow> bool option" where
  \<comment> \<open>\<open>a <= b\<close>: a number sorts before a text, texts compare by their bytes\<close>
  "sql_le SqlNull _ = None"
| "sql_le _ SqlNull = None"
| "sql_le (SqlInt a) (SqlInt b) = Some (a \<le> b)"
| "sql_le (SqlInt a) (SqlText b) = Some True"
| "sql_le (SqlText a) (SqlInt b) = Some False"
| "sql_le (SqlText a) (SqlText b) = Some (a \<le> b)"

fun sql_ne :: "sqlval \<Rightarrow> sqlval \<Rightarrow> bool option" where
  \<comment> \<open>\<open>a != b\<close>\<close>
  "sql_ne SqlNull _ = None"
| "sql_ne _ SqlNull = None"
| "sql_ne a b = Some (a \<noteq> b)"

fun sql_and :: "bool option \<Rightarrow> bool option \<Rightarrow> bool option" where
  "sql_and (Some False) _ = Some False"
| "sql_and _ (Some False) = Some False"
| "sql_and (Some True) (Some True) = Some True"
| "sql_and _ _ = None"


section \<open>External libraries and configuration\<close>

text \<open>
  \<open>bcryptjs\<close> and \<open>jsonwebtoken\<close> are not code of the repository: their functions are
  parameters of the model. \<open>jwt_verify\<close> takes the clock it reads (in seconds) as an
  argument, and \<open>jwt_timespan\<close> is the library's reading of an \<open>expiresIn\<close> string in
  seconds.
\<close>

record jwt_payload =
  p_userId :: nat
  p_iat :: nat
  p_type :: string

record sign_options =
  expiresIn :: string
  issuer :: string
  audience :: string

record jwt_decoded =
  \<comment> \<open>the claims of a verified token that the middleware reads\<close>
  d_userId :: nat
  d_iat :: nat
  d_exp :: nat

datatype jwt_error = TokenExpiredError | JsonWebTokenError | NotBeforeError

record ext =
  bcrypt_hash :: "string \<Rightarrow> nat \<Rightarrow> string"
  bcrypt_compare :: "string \<Rightarrow> string \<Rightarrow> bool"
  jwt_sign :: "jwt_payload \<Rightarrow> string \<Rightarrow> sign_options \<Rightarrow> string"
  jwt_verify :: "string \<Rightarrow> string \<Rightarrow> nat \<Rightarrow> jwt_error + jwt_decoded"
  jwt_timespan :: "string \<Rightarrow> nat"
  JWT_SECRET :: string
  env :: "string \<Rightarrow> string option"

definition env_or :: "ext \<Rightarrow> string \<Rightarrow> string \<Rightarrow> string" where
  \<comment> \<open>\<open>process.env.K || d\<close>\<close>
  "env_or x k d = (case env x k of None \<Rightarrow> d | Some v \<Rightarrow> if v = [] then d else v)"

definition jwt_contract :: "ext \<Rightarrow> bool" where
  \<comment> \<open>the documented behaviour of \<open>jsonwebtoken\<close> that the round trip relies on: a token is
      a non-empty string without a space, and \<open>verify\<close> with the signing secret gives the
      claims back until the expiry time \<open>iat + expiresIn\<close>\<close>
  "jwt_contract x =
     ((\<forall>p s opts. jwt_sign x p s opts \<noteq> [] \<and> CHR '' '' \<notin> set (jwt_sign x p s opts)) \<and>
      (\<forall>p s opts clock.
         jwt_verify x (jwt_sign x p s opts) s clock =
           (if clock < p_iat p + jwt_timespan x (expiresIn opts)
            then Inr \<lparr>d_userId = p_userId p, d_iat = p_iat p,
                      d_exp = p_iat p + jwt_timespan x (expiresIn opts)\<rparr>
            else Inl TokenExpiredError)))"


section \<open>Access control middleware (middleware/auth.js)\<close>

record req_user =
  userId :: nat
  tokenIssuedAt :: nat
  tokenExpiresAt :: nat

definition generateToken :: "ext \<Rightarrow> nat \<Rightarrow> nat \<Rightarrow> string" where
  \<comment> \<open>\<open>nowms\<close> is \<open>Date.now()\<close>\<close>
  "generateToken x nowms uid =
     jwt_sign x \<lparr>p_userId = uid, p_iat = nowms div 1000, p_type = ''access''\<rparr> (JWT_SECRET x)
       \<lparr>expiresIn = env_or x ''JWT_EXPIRES_IN'' ''24h'',
        issuer = env_or x ''JWT_ISSUER'' ''task-manager-api'',
        audience = env_or x ''JWT_AUDIENCE'' ''task-manager-users''\<rparr>"

definition authenticateToken :: "ext \<Rightarrow> nat \<Rightarrow> string option \<Rightarrow> response + req_user" where
  \<comment> \<open>the argument is \<open>req.headers['authorization']\<close>; \<open>Inr\<close> is \<open>req.user\<close> when \<open>next()\<close>
      is called. The middleware has no access to the database.\<close>
  "authenticateToken x nowms authHeader =
     (case authHeader of
        None \<Rightarrow> Inl (send 401 [(''success'', JBool False), (''message'', JStr ''Access token required''),
                               (''code'', JStr ''MISSING_TOKEN'')])
      | Some h \<Rightarrow>
          if h = [] then
            Inl (send 401 [(''success'', JBool False), (''message'', JStr ''Access token required''),
                           (''code'', JStr ''MISSING_TOKEN'')])
          else if length (split CHR '' '' h) < 2 \<or> split CHR '' '' h ! 1 = [] then
            Inl (send 401 [(''success'', JBool False), (''message'', JStr ''Invalid token format''),
                           (''code'', JStr ''INVALID_TOKEN_FORMAT'')])
          else
            (case jwt_verify x (split CHR '' '' h ! 1) (JWT_SECRET x) (nowms div 1000) of
               Inl TokenExpiredError \<Rightarrow>
                 Inl (send 401 [(''success'', JBool False), (''message'', JStr ''Token has expired''),
                                (''code'', JStr ''TOKEN_EXPIRED'')])
             | Inl JsonWebTokenError \<Rightarrow>
                 Inl (send 401 [(''success'', JBool False), (''message'', JStr ''Invalid token''),
                                (''code'', JStr ''INVALID_TOKEN'')])
             | Inl NotBeforeError \<Rightarrow>
                 Inl (send 401 [(''success'', JBool False), (''message'', JStr ''Token verification failed''),
                                (''code'', JStr ''TOKEN_VERIFICATION_FAILED'')])
             | Inr decoded \<Rightarrow>
                 Inr \<lparr>userId = d_userId decoded, tokenIssuedAt = d_iat decoded,
                      tokenExpiresAt = d_exp decoded\<rparr>))"


section \<open>Registration and login (routes/auth.js)\<close>

definition emailRegex_test :: "string \<Rightarrow> bool" where
  \<comment> \<open>\<open>/^[^\s@]+@[^\s@]+\.[^\s@]+$/\<close>: one \<open>@\<close>, no white space, a non-empty local part, and
      behind the \<open>@\<close> a dot that is neither the first nor the last character\<close>
  "emailRegex_test s =
     (let a = takeWhile (\<lambda>c. c \<noteq> CHR ''@'') s; r = dropWhile (\<lambda>c. c \<noteq> CHR ''@'') s
      in a \<noteq> [] \<and> (\<forall>c \<in> set a. \<not> is_space c) \<and>
         (case r of
            [] \<Rightarrow> False
          | _ # d \<Rightarrow> (\<forall>c \<in> set d. \<not> is_space c \<and> c \<noteq> CHR ''@'') \<and>
                     CHR ''.'' \<in> set (butlast (tl d))))"

definition validateRegistration :: "req_body \<Rightarrow> string list" where
  \<comment> \<open>the list \<open>errors\<close> of the middleware of this name in routes/auth.js; the request goes
      on to the handler when it is empty\<close>
  "validateRegistration b =
     (let name = b ''name''; email = b ''email''; password = b ''password'';
          confirmPassword = b ''confirmPassword''
      in (if \<not> truthy name \<or> \<not> is_string name then [''Name is required and must be a string'']
          else if length (trim (the_string name)) < 2 then [''Name must be at least 2 characters long'']
          else if length (trim (the_string name)) > 100 then [''Name cannot exceed 100 characters'']
          else []) @
         (if \<not> truthy email \<or> \<not> is_string email then [''Email is required and must be a string'']
          else (if \<not> emailRegex_test (trim (the_string email))
                then [''Please provide a valid email address''] else []) @
               (if length (trim (the_string email)) > 255
                then [''Email cannot exceed 255 characters''] else [])) @
         (if \<not> truthy password \<or> \<not> is_string password
          then [''Password is required and must be a string'']
          else if length (the_string password) < 6 then [''Password must be at least 6 characters long'']
          else if length (the_string password) > 128 then [''Password cannot exceed 128 characters'']
          else []) @
         (if \<not> truthy confirmPassword \<or> \<not> is_string confirmPassword
          then [''Password confirmation is required'']
          else if password \<noteq> confirmPassword then [''Passwords do not match'']
          else []))"

definition validateLogin :: "req_body \<Rightarrow> string list" where
  "validateLogin b =
     (let email = b ''email''; password = b ''password''
      in (if \<not> truthy email \<or> \<not> is_string email then [''Email is required and must be a string'']
          else if length (trim (the_string email)) = 0 then [''Email cannot be empty'']
          else []) @
         (if \<not> truthy password \<or> \<not> is_string password
          then [''Password is required and must be a string'']
          else if length (trim (the_string password)) = 0 then [''Password cannot be empty'']
          else []))"

definition validation_failed :: "string list \<Rightarrow> response" where
  "validation_failed errors =
     send 400 [(''success'', JBool False), (''message'', JStr ''Validation failed''),
               (''errors'', JArr (map JStr errors)), (''code'', JStr ''VALIDATION_ERROR'')]"

definition add_user :: "database \<Rightarrow> string \<Rightarrow> string \<Rightarrow> string \<Rightarrow> string \<Rightarrow> database" where
  \<comment> \<open>the table after a row has been inserted; \<open>lastID\<close> is the new \<open>users_seq\<close>\<close>
  "add_user db ts name email password =
     db\<lparr>users := users db @
            [\<lparr>u_id = users_seq db + 1, u_name = name, u_email = email, u_password = password,
              u_created_at = ts, u_updated_at = ts\<rparr>],
        users_seq := users_seq db + 1\<rparr>"

definition insert_user :: "database \<Rightarrow> string \<Rightarrow> string \<Rightarrow> string \<Rightarrow> string \<Rightarrow> string + database" where
  \<comment> \<open>\<open>INSERT INTO users (name, email, password)\<close>: the statement is refused when the email
      is in the table (\<open>email TEXT UNIQUE\<close>); \<open>Inl\<close> is the \<open>code\<close> of the error with which
      \<open>runQuery\<close> rejects\<close>
  "insert_user db ts name email password =
     (if email \<in> set (map u_email (users db)) then Inl ''SQLITE_CONSTRAINT''
      else Inr (add_user db ts name email password))"

text \<open>
  The handler of \<open>POST /register\<close> awaits two statements, the SELECT of the duplicate check
  and the INSERT, and other requests can run between them. It is modelled in two steps:
  \<open>register_select\<close> runs the middleware and the handler up to the duplicate check on the
  state it sees, \<open>register_insert\<close> runs the rest, with the \<open>catch\<close> branch, on the state at
  the time of the INSERT. \<open>register\<close> is a request that no other one interleaves with.
  \<open>ts\<close> is \<open>CURRENT_TIMESTAMP\<close>, \<open>nowms\<close> is \<open>Date.now()\<close>.
\<close>

definition register_select :: "database \<Rightarrow> req_body \<Rightarrow> response + (string \<times> string \<times> string)" where
  \<comment> \<open>the middleware \<open>validateRegistration\<close>, then the handler, in which the four properties
      are strings, up to \<open>existingUser\<close>; \<open>Inr\<close> holds \<open>sanitizedName\<close>, \<open>sanitizedEmail\<close> and
      \<open>password\<close> of a request that goes on\<close>
  "register_select db b =
     (if validateRegistration b \<noteq> [] then Inl (validation_failed (validateRegistration b))
      else
        let name = the_string (b ''name''); email = the_string (b ''email'');
            password = the_string (b ''password'');
            confirmPassword = the_string (b ''confirmPassword'');
            sanitizedName = sanitizeInput name;
            sanitizedEmail = toLowerCase (sanitizeInput email)
        in if length sanitizedName < 2 then
             Inl (send 400 [(''success'', JBool False),
                            (''message'', JStr ''Name must be at least 2 characters long''),
                            (''code'', JStr ''INVALID_NAME'')])
           else if length sanitizedEmail = 0 \<or> \<not> includes_char sanitizedEmail CHR ''@'' then
             Inl (send 400 [(''success'', JBool False),
                            (''message'', JStr ''Please provide a valid email address''),
                            (''code'', JStr ''INVALID_EMAIL'')])
           else if length password < 6 then
             Inl (send 400 [(''success'', JBool False),
                            (''message'', JStr ''Password must be at least 6 characters long''),
                            (''code'', JStr ''INVALID_PASSWORD'')])
           else if password \<noteq> confirmPassword then
             Inl (send 400 [(''success'', JBool False), (''message'', JStr ''Passwords do not match''),
                            (''code'', JStr ''PASSWORD_MISMATCH'')])
           else if find (\<lambda>u. u_email u = sanitizedEmail) (users db) \<noteq> None then
             Inl (send 409 [(''success'', JBool False),
                            (''message'', JStr ''User with this email already exists''),
                            (''code'', JStr ''USER_EXISTS'')])
           else Inr (sanitizedName, sanitizedEmail, password))"

definition register_insert ::
  "ext \<Rightarrow> string \<Rightarrow> nat \<Rightarrow> database \<Rightarrow> string \<times> string \<times> string \<Rightarrow> response \<times> database" where
  \<comment> \<open>from \<open>bcrypt.hash\<close> to the response. An error of the INSERT goes to the \<open>catch\<close> branch,
      which answers 409 for the code \<open>'23505'\<close> and 500 for every other one.\<close>
  "register_insert x ts nowms db p =
     (case p of (sanitizedName, sanitizedEmail, password) \<Rightarrow>
        let hashedPassword = bcrypt_hash x password 12
        in case insert_user db ts sanitizedName sanitizedEmail hashedPassword of
             Inl code \<Rightarrow>
               if code = ''23505'' then
                 (send 409 [(''success'', JBool False),
                            (''message'', JStr ''User with this email already exists''),
                            (''code'', JStr ''USER_EXISTS'')], db)
               else
                 (send 500 [(''success'', JBool False),
                            (''message'', JStr ''Internal server error during registration''),
                            (''code'', JStr ''REGISTRATION_ERROR'')], db)
           | Inr db' \<Rightarrow>
               let insertResult_id = users_seq db';
                   token = generateToken x nowms insertResult_id
               in case find (\<lambda>u. u_id u = insertResult_id) (users db') of
                    None \<Rightarrow>
                      (send 500 [(''success'', JBool False),
                                 (''message'', JStr ''Internal server error during registration''),
                                 (''code'', JStr ''REGISTRATION_ERROR'')], db')
                  | Some createdUser \<Rightarrow>
                      (send 201 [(''success'', JBool True),
                                 (''message'', JStr ''User registered successfully''),
                                 (''data'', JObj [(''userId'', JNum (int (u_id createdUser))),
                                                  (''name'', JStr (u_name createdUser)),
                                                  (''email'', JStr (u_email createdUser)),
                                                  (''token'', JStr token),
                                                  (''createdAt'', JStr (u_created_at createdUser))])],
                       db'))"

definition register :: "ext \<Rightarrow> string \<Rightarrow> nat \<Rightarrow> database \<Rightarrow> req_body \<Rightarrow> response \<times> database" where
  \<comment> \<open>\<open>POST /register\<close>, both steps on one state\<close>
  "register x ts nowms db b =
     (case register_select db b of
        Inl res \<Rightarrow> (res, db)
      | Inr p \<Rightarrow> register_insert x ts nowms db p)"

definition login :: "ext \<Rightarrow> nat \<Rightarrow> database \<Rightarrow> req_body \<Rightarrow> response" where
  \<comment> \<open>\<open>POST /login\<close>: the middleware \<open>validateLogin\<close>, then the handler; nothing is written\<close>
  "login x nowms db b =
     (if validateLogin b \<noteq> [] then validation_failed (validateLogin b)
      else
        let email = the_string (b ''email''); password = the_string (b ''password'');
            sanitizedEmail = toLowerCase (sanitizeInput email)
        in case find (\<lambda>u. u_email u = sanitizedEmail) (users db) of
             None \<Rightarrow>
               send 401 [(''success'', JBool False), (''message'', JStr ''Invalid email or password''),
                         (''code'', JStr ''INVALID_CREDENTIALS'')]
           | Some user \<Rightarrow>
               if \<not> bcrypt_compare x password (u_password user) then
                 send 401 [(''success'', JBool False), (''message'', JStr ''Invalid email or password''),
                           (''code'', JStr ''INVALID_CREDENTIALS'')]
               else
                 send 200 [(''success'', JBool True), (''message'', JStr ''Login successful''),
                           (''data'', JObj [(''userId'', JNum (int (u_id user))),
                                            (''name'', JStr (u_name user)),
                                            (''email'', JStr (u_email user)),
                                            (''token'', JStr (generateToken x nowms (u_id user))),
                                            (''createdAt'', JStr (u_created_at user))])])"


section \<open>Tasks (routes/tasks.js)\<close>

text \<open>
  Every handler runs behind \<open>authenticateToken\<close>: \<open>uid\<close> is \<open>req.user.userId\<close>. The path
  parameter \<open>id\<close> is taken as the number that SQLite compares with the integer key.
\<close>

definition valid_statuses :: "string list" where
  "valid_statuses = [''To Do'', ''In Progress'', ''Done'']"

definition status_included :: "jsval \<Rightarrow> bool" where
  \<comment> \<open>\<open>['To Do', 'In Progress', 'Done'].includes(status)\<close>\<close>
  "status_included v = (case v of Str s \<Rightarrow> s \<in> set valid_statuses | _ \<Rightarrow> False)"

fun description_param :: "jsval \<Rightarrow> string option" where
  \<comment> \<open>\<open>description?.trim() || ''\<close>; \<open>None\<close> is the TypeError of a value without \<open>trim\<close>\<close>
  "description_param Undefined = Some []"
| "description_param Null = Some []"
| "description_param (Str s) = Some (trim s)"
| "description_param _ = None"

definition or_null :: "jsval \<Rightarrow> jsval" where
  \<comment> \<open>\<open>v || null\<close>\<close>
  "or_null v = (if truthy v then v else Null)"

definition task_json :: "task_row \<Rightarrow> json" where
  \<comment> \<open>a row of \<open>SELECT * FROM tasks\<close>\<close>
  "task_json t =
     JObj [(''id'', JNum (int (t_id t))), (''title'', JStr (t_title t)),
           (''description'', JStr (t_description t)), (''status'', json_of_sql (t_status t)),
           (''user_id'', JNum (int (t_user_id t))), (''created_at'', JStr (t_created_at t)),
           (''updated_at'', JStr (t_updated_at t)), (''deadline'', json_of_sql (t_deadline t)),
           (''reminder_time'', json_of_sql (t_reminder_time t))]"

definition task_not_found :: response where
  "task_not_found = send 404 [(''success'', JBool False), (''message'', JStr ''Task not found'')]"

definition internal_error :: response where
  \<comment> \<open>the \<open>catch\<close> branch of the task handlers\<close>
  "internal_error = send 500 [(''success'', JBool False), (''message'', JStr ''Internal server error'')]"

definition invalid_status :: response where
  "invalid_status =
     send 400 [(''success'', JBool False),
               (''message'', JStr ''Invalid status. Must be one of: To Do, In Progress, Done'')]"

definition getTask :: "database \<Rightarrow> nat \<Rightarrow> nat \<Rightarrow> response" where
  \<comment> \<open>\<open>GET /:id\<close>\<close>
  "getTask db uid id' =
     (case find (\<lambda>t. t_id t = id' \<and> t_user_id t = uid) (tasks db) of
        None \<Rightarrow> task_not_found
      | Some task \<Rightarrow> send 200 [(''success'', JBool True), (''data'', task_json task)])"

definition insert_task ::
  "database \<Rightarrow> string \<Rightarrow> string \<Rightarrow> string \<Rightarrow> sqlval \<Rightarrow> sqlval \<Rightarrow> sqlval \<Rightarrow> nat \<Rightarrow> database" where
  \<comment> \<open>\<open>INSERT INTO tasks (title, description, status, deadline, reminder_time, user_id)\<close>\<close>
  "insert_task db ts title description status deadline reminder_time uid =
     db\<lparr>tasks := tasks db @
            [\<lparr>t_id = tasks_seq db + 1, t_title = title, t_description = description,
              t_status = status, t_user_id = uid, t_created_at = ts, t_updated_at = ts,
              t_deadline = deadline, t_reminder_time = reminder_time\<rparr>],
        tasks_seq := tasks_seq db + 1\<rparr>"

definition createTask :: "string \<Rightarrow> database \<Rightarrow> nat \<Rightarrow> req_body \<Rightarrow> response \<times> database" where
  \<comment> \<open>\<open>POST /\<close>. A truthy title that is no string has no \<open>trim\<close>: the TypeError goes to the
      \<open>catch\<close> branch, as does the foreign key error of an unknown \<open>uid\<close>.\<close>
  "createTask ts db uid b =
     (let title = b ''title''; description = b ''description'';
          status = (if b ''status'' = Undefined then Str ''To Do'' else b ''status'');
          deadline = b ''deadline''; reminder_time = b ''reminder_time''
      in if \<not> truthy title then
           (send 400 [(''success'', JBool False), (''message'', JStr ''Task title is required'')], db)
         else if \<not> is_string title then (internal_error, db)
         else if length (trim (the_string title)) = 0 then
           (send 400 [(''success'', JBool False), (''message'', JStr ''Task title is required'')], db)
         else if truthy status \<and> \<not> status_included status then (invalid_status, db)
         else
           case description_param description of
             None \<Rightarrow> (internal_error, db)
           | Some d \<Rightarrow>
               if uid \<notin> set (map u_id (users db)) then (internal_error, db)
               else
                 let db' = insert_task db ts (trim (the_string title)) d (bind status)
                             (bind (or_null deadline)) (bind (or_null reminder_time)) uid
                 in (send 201 [(''success'', JBool True),
                               (''message'', JStr ''Task created successfully''),
                               (''data'', JObj [(''id'', JNum (int (tasks_seq db'))),
                                                (''changes'', JNum 1), (''rows'', JArr [])])],
                     db'))"

definition updatable_fields :: "string list" where
  \<comment> \<open>the properties that \<open>PUT /:id\<close> reads from the body\<close>
  "updatable_fields = [''title'', ''description'', ''status'', ''deadline'', ''reminder_time'']"

definition updates_of :: "req_body \<Rightarrow> (task_row \<Rightarrow> task_row) list" where
  \<comment> \<open>the assignments \<open>updates\<close> with their \<open>params\<close>, one for each property that is not
      \<open>undefined\<close>, in the order of the source\<close>
  "updates_of b =
     (if b ''title'' \<noteq> Undefined then [\<lambda>t. t\<lparr>t_title := trim (the_string (b ''title''))\<rparr>] else []) @
     (if b ''description'' \<noteq> Undefined
      then [\<lambda>t. t\<lparr>t_description := (case description_param (b ''description'') of
                                         Some d \<Rightarrow> d | None \<Rightarrow> [])\<rparr>]
      else []) @
     (if b ''status'' \<noteq> Undefined then [\<lambda>t. t\<lparr>t_status := bind (b ''status'')\<rparr>] else []) @
     (if b ''deadline'' \<noteq> Undefined then [\<lambda>t. t\<lparr>t_deadline := bind (b ''deadline'')\<rparr>] else []) @
     (if b ''reminder_time'' \<noteq> Undefined
      then [\<lambda>t. t\<lparr>t_reminder_time := bind (b ''reminder_time'')\<rparr>] else [])"

definition run_update :: "database \<Rightarrow> (task_row \<Rightarrow> task_row) list \<Rightarrow> string \<Rightarrow> nat \<Rightarrow> nat \<Rightarrow> database" where
  \<comment> \<open>\<open>UPDATE tasks SET ..., updated_at = CURRENT_TIMESTAMP WHERE id = ? AND user_id = ?\<close>\<close>
  "run_update db updates ts id' uid =
     db\<lparr>tasks := map (\<lambda>t. if t_id t = id' \<and> t_user_id t = uid
                            then (fold (\<lambda>f r. f r) updates t)\<lparr>t_updated_at := ts\<rparr> else t)
                     (tasks db)\<rparr>"

definition updateTask :: "string \<Rightarrow> database \<Rightarrow> nat \<Rightarrow> nat \<Rightarrow> req_body \<Rightarrow> response \<times> database" where
  \<comment> \<open>\<open>PUT /:id\<close>. \<open>title.trim()\<close> and \<open>description?.trim()\<close> raise a TypeError on a value
      without \<open>trim\<close>, before any statement is run.\<close>
  "updateTask ts db uid id' b =
     (let title = b ''title''; description = b ''description''; status = b ''status''
      in case find (\<lambda>t. t_id t = id' \<and> t_user_id t = uid) (tasks db) of
           None \<Rightarrow> (task_not_found, db)
         | Some existingTask \<Rightarrow>
             if title \<noteq> Undefined \<and> \<not> is_string title then (internal_error, db)
             else if title \<noteq> Undefined \<and> length (trim (the_string title)) = 0 then
               (send 400 [(''success'', JBool False),
                          (''message'', JStr ''Task title cannot be empty'')], db)
             else if truthy status \<and> \<not> status_included status then (invalid_status, db)
             else if description \<noteq> Undefined \<and> description_param description = None then
               (internal_error, db)
             else if length (updates_of b) = 0 then
               (send 400 [(''success'', JBool False), (''message'', JStr ''No fields to update'')], db)
             else
               let db' = run_update db (updates_of b) ts id' uid
               in (send 200 ([(''success'', JBool True),
                              (''message'', JStr ''Task updated successfully'')] @
                             (case find (\<lambda>t. t_id t = id') (tasks db') of
                                None \<Rightarrow> []
                              | Some updatedTask \<Rightarrow> [(''data'', task_json updatedTask)])),
                   db'))"


section \<open>Reminder job (index.js)\<close>

definition reminder_where :: "string \<Rightarrow> task_row \<Rightarrow> bool option" where
  \<comment> \<open>\<open>t.reminder_time <= ? AND t.status != ?\<close> with the parameters \<open>now.toISOString()\<close> and
      \<open>'Done'\<close>\<close>
  "reminder_where now t =
     sql_and (sql_le (t_reminder_time t) (SqlText now)) (sql_ne (t_status t) (SqlText ''Done''))"

definition reminder_query :: "string \<Rightarrow> database \<Rightarrow> (task_row \<times> string) list" where
  \<comment> \<open>\<open>SELECT t.*, u.email FROM tasks t JOIN users u ON t.user_id = u.id WHERE ...\<close>: the rows
      for which the condition is true\<close>
  "reminder_query now db =
     [(t, u_email u). t \<leftarrow> tasks db, u \<leftarrow> users db, t_user_id t = u_id u,
                      reminder_where now t = Some True]"

definition reminder_line :: "task_row \<times> string \<Rightarrow> string" where
  "reminder_line r = ''Reminder: Task \"'' @ t_title (fst r) @ ''\" is due for user '' @ snd r"

definition reminder_job :: "string \<Rightarrow> database \<Rightarrow> string list \<times> database" where
  \<comment> \<open>one run of the scheduled function: the lines it logs for the tasks found (the line
      with their number and the pictographs are left out), and the database, which it only
      reads\<close>
  "reminder_job now db = (map reminder_line (reminder_query now db), db)"


section \<open>Example values\<close>

definition body_of :: "(string \<times> jsval) list \<Rightarrow> req_body" where
  \<comment> \<open>the body parsed from a JSON object with the given properties\<close>
  "body_of kvs k = (case map_of kvs k of None \<Rightarrow> Undefined | Some v \<Rightarrow> v)"

definition example_ext :: ext where
  \<comment> \<open>stand-ins for the two libraries that keep the contract of \<open>jsonwebtoken\<close>: a token
      holds \<open>userId\<close> and \<open>iat\<close> in unary, and every token lives for a day\<close>
  "example_ext =
     \<lparr>bcrypt_hash = (\<lambda>p rounds. ''$2a$'' @ p),
      bcrypt_compare = (\<lambda>p h. h = ''$2a$'' @ p),
      jwt_sign = (\<lambda>p s opts. replicate (p_userId p) CHR ''u'' @ replicate (p_iat p) CHR ''i'' @ ''.''),
      jwt_verify = (\<lambda>tok s clock.
         let u = length (filter (\<lambda>c. c = CHR ''u'') tok);
             i = length (filter (\<lambda>c. c = CHR ''i'') tok)
         in if clock < i + 86400 then Inr \<lparr>d_userId = u, d_iat = i, d_exp = i + 86400\<rparr>
            else Inl TokenExpiredError),
      jwt_timespan = (\<lambda>span. 86400),
      JWT_SECRET = ''secret'',
      env = (\<lambda>k. None)\<rparr>"

definition empty_db :: database where
  "empty_db = \<lparr>users = [], tasks = [], users_seq = 0, tasks_seq = 0\<rparr>"

definition ann :: user_row where
  "ann = \<lparr>u_id = 1, u_name = ''Ann'', u_email = ''ann@x.com'', u_password = ''$2a$Abc123'',
          u_created_at = ''2026-01-01 00:00:00'', u_updated_at = ''2026-01-01 00:00:00''\<rparr>"

definition bob :: user_row where
  "bob = \<lparr>u_id = 2, u_name = ''Bob'', u_email = ''bob@x.com'', u_password = ''$2a$Xyz789'',
          u_created_at = ''2026-01-02 00:00:00'', u_updated_at = ''2026-01-02 00:00:00''\<rparr>"

definition write_spec :: task_row where
  \<comment> \<open>a task of Ann\<close>
  "write_spec =
     \<lparr>t_id = 1, t_title = ''Write spec'', t_description = [], t_status = SqlText ''To Do'',
      t_user_id = 1, t_created_at = ''2026-01-03 00:00:00'', t_updated_at = ''2026-01-03 00:00:00'',
      t_deadline = SqlNull, t_reminder_time = SqlText ''2026-01-04T09:00:00.000Z''\<rparr>"

definition example_db :: database where
  "example_db = \<lparr>users = [ann, bob], tasks = [write_spec], users_seq = 2, tasks_seq = 1\<rparr>"

definition ann_registration :: req_body where
  "ann_registration =
     body_of [(''name'', Str ''Ann''), (''email'', Str ''ann@x.com''),
              (''password'', Str ''Abc123''), (''confirmPassword'', Str ''Abc123'')]"


section \<open>Properties of the string functions\<close>

lemma set_replaceAll: "set (replaceAll m s) \<subseteq> set s"
proof (induction m s rule: replaceAll.induct)
  case (1 m)
  show ?case by simp
next
  case (2 m c cs)
  show ?case
  proof (cases "m (c # cs)")
    case None
    with 2 show ?thesis by auto
  next
    case (Some n)
    with 2 have "set (replaceAll m (drop (n - 1) cs)) \<subseteq> set (drop (n - 1) cs)" by simp
    moreover have "set (drop (n - 1) cs) \<subseteq> set cs" by (rule set_drop_subset)
    ultimately show ?thesis using Some by auto
  qed
qed

lemma replaceAll_match_angle: "replaceAll match_angle s = filter (\<lambda>c. c \<noteq> CHR ''<'' \<and> c \<noteq> CHR ''>'') s"
  by (induction s) (auto simp: match_angle_def)

lemma set_trim: "set (trim s) \<subseteq> set s"
proof -
  have "set (trim s) \<subseteq> set (dropWhile is_space s)"
    unfolding trim_def using set_dropWhileD by fastforce
  also have "\<dots> \<subseteq> set s" using set_dropWhileD by fastforce
  finally show ?thesis .
qed

lemma hd_trim: "trim s \<noteq> [] \<Longrightarrow> \<not> is_space (hd (trim s))"
proof -
  assume ne: "trim s \<noteq> []"
  let ?ys = "dropWhile is_space s"
  let ?zs = "dropWhile is_space (rev ?ys)"
  from ne have zs: "?zs \<noteq> []" by (simp add: trim_def)
  have ys: "?ys \<noteq> []"
  proof
    assume "?ys = []"
    then have "?zs = []" by (simp only: rev.simps(1) dropWhile.simps(1))
    with zs show False by (simp only: not_False_eq_True)
  qed
  obtain ps where ps: "rev ?ys = ps @ ?zs"
    by (metis takeWhile_dropWhile_id)
  have "hd (trim s) = last ?zs" using zs by (simp add: trim_def hd_rev)
  also have "\<dots> = last (rev ?ys)" using ps zs by (metis last_appendR)
  also have "\<dots> = hd ?ys" using ys by (simp add: last_rev)
  finally show ?thesis using ys hd_dropWhile by metis
qed

lemma last_trim: "trim s \<noteq> [] \<Longrightarrow> \<not> is_space (last (trim s))"
proof -
  assume ne: "trim s \<noteq> []"
  let ?zs = "dropWhile is_space (rev (dropWhile is_space s))"
  from ne have zs: "?zs \<noteq> []" by (simp add: trim_def)
  have "last (trim s) = hd ?zs" using zs by (simp add: trim_def last_rev)
  then show ?thesis using zs hd_dropWhile by metis
qed

lemma sanitizeInput_no_angle:
  "CHR ''<'' \<notin> set (sanitizeInput s) \<and> CHR ''>'' \<notin> set (sanitizeInput s)"
proof -
  have "set (sanitizeInput s) \<subseteq> set (replaceAll match_angle s)"
    unfolding sanitizeInput_def
    using set_trim set_replaceAll by (meson subset_trans)
  then show ?thesis by (auto simp: replaceAll_match_angle)
qed


section \<open>Example values, evaluated\<close>

lemma example_db_simps:
  "tasks example_db = [write_spec]" "users example_db = [ann, bob]"
  "users_seq example_db = 2" "tasks_seq example_db = 1"
  by (simp_all add: example_db_def)


section \<open>Reading a task\<close>

lemma find_owner_None:
  assumes "distinct (map t_id ts)" "t \<in> set ts" "uid \<noteq> t_user_id t"
  shows "find (\<lambda>r. t_id r = t_id t \<and> t_user_id r = uid) ts = None"
proof -
  have "\<And>r. r \<in> set ts \<Longrightarrow> t_id r = t_id t \<Longrightarrow> r = t"
    using assms(1,2) by (meson distinct_map inj_onD)
  then show ?thesis using assms(3) by (auto simp: find_None_iff)
qed

lemma find_absent_None:
  "i \<notin> t_id ` set ts \<Longrightarrow> find (\<lambda>r. t_id r = i \<and> t_user_id r = uid) ts = None"
  by (auto simp: find_None_iff)

text \<open>
  Claim C1. For a task \<open>t\<close> of the store and an authenticated identity \<open>uid\<close> that is not the
  owner of \<open>t\<close>, \<open>GET /:id\<close> with the identifier of \<open>t\<close> answers 404 with the body
  \<open>{success: false, message: 'Task not found'}\<close>, which holds no field of \<open>t\<close>, and this
  is the answer to every identifier that no task of the store has. The identifiers of the
  stored tasks are distinct, as the primary key has it.
\<close>

theorem getTask_other_owner_not_found:
  assumes "distinct (map t_id (tasks db))" and "t \<in> set (tasks db)" and "uid \<noteq> t_user_id t"
  shows "getTask db uid (t_id t) =
           \<lparr>statusCode = 404,
            body = JObj [(''success'', JBool False), (''message'', JStr ''Task not found'')]\<rparr> \<and>
         (\<forall>i. i \<notin> t_id ` set (tasks db) \<longrightarrow> getTask db uid i = getTask db uid (t_id t))"
  using find_owner_None [OF assms] find_absent_None [of _ "tasks db" uid]
  by (simp add: getTask_def task_not_found_def send_def)

theorem getTask_other_owner_not_found_witness:
  "distinct (map t_id (tasks example_db)) \<and> write_spec \<in> set (tasks example_db) \<and>
   2 \<noteq> t_user_id write_spec \<and>
   getTask example_db 2 (t_id write_spec) =
     \<lparr>statusCode = 404,
      body = JObj [(''success'', JBool False), (''message'', JStr ''Task not found'')]\<rparr> \<and>
   getTask example_db 2 7 = getTask example_db 2 (t_id write_spec)"
proof -
  have h1: "distinct (map t_id (tasks example_db))" by (simp add: example_db_simps)
  have h2: "write_spec \<in> set (tasks example_db)" by (simp add: example_db_simps)
  have h3: "2 \<noteq> t_user_id write_spec" by (simp add: write_spec_def)
  have h4: "7 \<notin> t_id ` set (tasks example_db)" by (simp add: example_db_simps write_spec_def)
  from getTask_other_owner_not_found [OF h1 h2 h3] h1 h2 h3 h4 show ?thesis by blast
qed


lemmas str_defs = trim_def is_space_def is_word_def toLowerCase_def toLowerChar_def includes_char_def
  sanitizeInput_def match_angle_def match_javascript_def match_on_handler_def

section \<open>Registration\<close>

lemma send_sel [simp]: "statusCode (send c p) = c" "body (send c p) = JObj p"
  by (simp_all add: send_def)

lemma statusCode_validation_failed [simp]: "statusCode (validation_failed es) = 400"
  by (simp add: validation_failed_def)

lemma validateRegistration_NilD:
  assumes "validateRegistration b = []"
  shows "b ''name'' = Str (the_string (b ''name''))"
    and "b ''email'' = Str (the_string (b ''email''))"
    and "b ''password'' = Str (the_string (b ''password''))"
    and "b ''confirmPassword'' = b ''password''"
    and "6 \<le> length (the_string (b ''password''))"
    and "length (the_string (b ''password'')) \<le> 128"
proof -
  from assms have n: "is_string (b ''name'')" and e: "is_string (b ''email'')"
    and p: "is_string (b ''password'')" and c: "b ''confirmPassword'' = b ''password''"
    and l: "6 \<le> length (the_string (b ''password''))" "length (the_string (b ''password'')) \<le> 128"
    by (auto simp: validateRegistration_def Let_def split: if_splits)
  have str: "\<And>v. is_string v \<Longrightarrow> v = Str (the_string v)"
    by (case_tac v) simp_all
  show "b ''name'' = Str (the_string (b ''name''))" using n by (rule str)
  show "b ''email'' = Str (the_string (b ''email''))" using e by (rule str)
  show "b ''password'' = Str (the_string (b ''password''))" using p by (rule str)
  show "b ''confirmPassword'' = b ''password''" by (rule c)
  show "6 \<le> length (the_string (b ''password''))" by (rule l(1))
  show "length (the_string (b ''password'')) \<le> 128" by (rule l(2))
qed

lemma find_new_user_Some:
  "\<exists>u. find (\<lambda>u. u_id u = u_id r) (us @ [r]) = Some u \<and> u_id u = u_id r"
  by (induction us) auto

lemma register_sequential:
  \<comment> \<open>on one state the INSERT that follows a passed duplicate check is not refused\<close>
  "register x ts nowms db b =
     (if validateRegistration b \<noteq> [] then (validation_failed (validateRegistration b), db)
      else
        let name = the_string (b ''name''); email = the_string (b ''email'');
            password = the_string (b ''password'');
            confirmPassword = the_string (b ''confirmPassword'');
            sanitizedName = sanitizeInput name;
            sanitizedEmail = toLowerCase (sanitizeInput email)
        in if length sanitizedName < 2 then
             (send 400 [(''success'', JBool False),
                        (''message'', JStr ''Name must be at least 2 characters long''),
                        (''code'', JStr ''INVALID_NAME'')], db)
           else if length sanitizedEmail = 0 \<or> \<not> includes_char sanitizedEmail CHR ''@'' then
             (send 400 [(''success'', JBool False),
                        (''message'', JStr ''Please provide a valid email address''),
                        (''code'', JStr ''INVALID_EMAIL'')], db)
           else if length password < 6 then
             (send 400 [(''success'', JBool False),
                        (''message'', JStr ''Password must be at least 6 characters long''),
                        (''code'', JStr ''INVALID_PASSWORD'')], db)
           else if password \<noteq> confirmPassword then
             (send 400 [(''success'', JBool False), (''message'', JStr ''Passwords do not match''),
                        (''code'', JStr ''PASSWORD_MISMATCH'')], db)
           else if find (\<lambda>u. u_email u = sanitizedEmail) (users db) \<noteq> None then
             (send 409 [(''success'', JBool False),
                        (''message'', JStr ''User with this email already exists''),
                        (''code'', JStr ''USER_EXISTS'')], db)
           else
             let hashedPassword = bcrypt_hash x password 12;
                 db' = add_user db ts sanitizedName sanitizedEmail hashedPassword;
                 insertResult_id = users_seq db';
                 token = generateToken x nowms insertResult_id
             in case find (\<lambda>u. u_id u = insertResult_id) (users db') of
                  None \<Rightarrow>
                    (send 500 [(''success'', JBool False),
                               (''message'', JStr ''Internal server error during registration''),
                               (''code'', JStr ''REGISTRATION_ERROR'')], db')
                | Some createdUser \<Rightarrow>
                    (send 201 [(''success'', JBool True),
                               (''message'', JStr ''User registered successfully''),
                               (''data'', JObj [(''userId'', JNum (int (u_id createdUser))),
                                                (''name'', JStr (u_name createdUser)),
                                                (''email'', JStr (u_email createdUser)),
                                                (''token'', JStr token),
                                                (''createdAt'', JStr (u_created_at createdUser))])],
                     db'))"
proof -
  have "\<And>e. find (\<lambda>u. u_email u = e) (users db) = None \<Longrightarrow> e \<notin> set (map u_email (users db))"
    by (auto simp: find_None_iff)
  then show ?thesis
    by (simp add: register_def register_select_def register_insert_def insert_user_def Let_def)
qed

lemma register_201D:
  assumes "statusCode (fst (register x ts nowms db b)) = 201"
  shows "validateRegistration b = []"
    and "2 \<le> length (sanitizeInput (the_string (b ''name'')))"
    and "CHR ''@'' \<in> set (toLowerCase (sanitizeInput (the_string (b ''email''))))"
    and "find (\<lambda>u. u_email u = toLowerCase (sanitizeInput (the_string (b ''email'')))) (users db) = None"
    and "snd (register x ts nowms db b) =
           add_user db ts (sanitizeInput (the_string (b ''name'')))
             (toLowerCase (sanitizeInput (the_string (b ''email''))))
             (bcrypt_hash x (the_string (b ''password'')) 12)"
  using assms
  by (auto simp: register_sequential Let_def includes_char_def split: if_splits option.splits)


lemma register_created:
  assumes "validateRegistration b = []"
    and "2 \<le> length (sanitizeInput (the_string (b ''name'')))"
    and "CHR ''@'' \<in> set (toLowerCase (sanitizeInput (the_string (b ''email''))))"
    and "find (\<lambda>u. u_email u = toLowerCase (sanitizeInput (the_string (b ''email'')))) (users db) = None"
  shows "statusCode (fst (register x ts nowms db b)) = 201"
proof -
  have ne: "toLowerCase (sanitizeInput (the_string (b ''email''))) \<noteq> []"
    using assms(3) by auto
  have pw: "\<not> length (the_string (b ''password'')) < 6"
    using validateRegistration_NilD(5) [OF assms(1)] by simp
  have cf: "the_string (b ''password'') = the_string (b ''confirmPassword'')"
    using validateRegistration_NilD(4) [OF assms(1)] by simp
  obtain u where "find (\<lambda>u. u_id u = users_seq db + 1)
      (users db @ [\<lparr>u_id = users_seq db + 1, u_name = sanitizeInput (the_string (b ''name'')),
         u_email = toLowerCase (sanitizeInput (the_string (b ''email''))),
         u_password = bcrypt_hash x (the_string (b ''password'')) 12,
         u_created_at = ts, u_updated_at = ts\<rparr>]) = Some u"
    using find_new_user_Some [of "\<lparr>u_id = users_seq db + 1, u_name = sanitizeInput (the_string (b ''name'')),
         u_email = toLowerCase (sanitizeInput (the_string (b ''email''))),
         u_password = bcrypt_hash x (the_string (b ''password'')) 12,
         u_created_at = ts, u_updated_at = ts\<rparr>" "users db"] by auto
  then show ?thesis
    using assms ne pw cf by (simp add: register_sequential Let_def includes_char_def add_user_def)
qed

lemma register_writes_only_on_insert:
  "statusCode (fst (register x ts nowms db b)) \<in> {400, 409} \<Longrightarrow> snd (register x ts nowms db b) = db"
  by (auto simp: register_sequential Let_def split: if_splits option.splits)

lemma ann_registration_simps:
  "ann_registration ''name'' = Str ''Ann''" "ann_registration ''email'' = Str ''ann@x.com''"
  "ann_registration ''password'' = Str ''Abc123''" "ann_registration ''confirmPassword'' = Str ''Abc123''"
  by (simp_all add: ann_registration_def body_of_def)

lemma validateRegistration_ann: "validateRegistration ann_registration = []"
  by (simp add: validateRegistration_def ann_registration_simps emailRegex_test_def str_defs)

lemma sanitizeInput_Ann: "sanitizeInput ''Ann'' = ''Ann''"
  by (simp add: str_defs)

lemma sanitizedEmail_ann: "toLowerCase (sanitizeInput ''ann@x.com'') = ''ann@x.com''"
  by (simp add: str_defs)

lemma sanitizeInput_example: "sanitizeInput '' <b>Ann</b> '' = ''bAnn/b''"
  by (simp add: str_defs)

text \<open>
  Claim C10. For every string, the result of \<open>sanitizeInput\<close> holds neither \<open><\<close> nor \<open>>\<close>,
  and when it is not empty its first and its last character are no white space. The
  registration handler applies it to the name and to the email before the duplicate check
  and before the insert: a registration that answers 201 found no user under the sanitized,
  lower-cased email and has added one row with the sanitized name and that email; and when
  a user has that email already, the request is refused (400 or 409) and nothing is
  written.
\<close>

theorem sanitizeInput_strips_and_register_uses_it:
  "CHR ''<'' \<notin> set (sanitizeInput s) \<and> CHR ''>'' \<notin> set (sanitizeInput s) \<and>
   (sanitizeInput s \<noteq> [] \<longrightarrow> \<not> is_space (hd (sanitizeInput s)) \<and> \<not> is_space (last (sanitizeInput s))) \<and>
   (statusCode (fst (register x ts nowms db b)) = 201 \<longrightarrow>
      find (\<lambda>u. u_email u = toLowerCase (sanitizeInput (the_string (b ''email'')))) (users db) = None \<and>
      users (snd (register x ts nowms db b)) =
        users db @ [\<lparr>u_id = users_seq db + 1,
                      u_name = sanitizeInput (the_string (b ''name'')),
                      u_email = toLowerCase (sanitizeInput (the_string (b ''email''))),
                      u_password = bcrypt_hash x (the_string (b ''password'')) 12,
                      u_created_at = ts, u_updated_at = ts\<rparr>]) \<and>
   (find (\<lambda>u. u_email u = toLowerCase (sanitizeInput (the_string (b ''email'')))) (users db) \<noteq> None \<longrightarrow>
      statusCode (fst (register x ts nowms db b)) \<in> {400, 409} \<and> snd (register x ts nowms db b) = db)"
proof -
  have a: "CHR ''<'' \<notin> set (sanitizeInput s) \<and> CHR ''>'' \<notin> set (sanitizeInput s)"
    by (rule sanitizeInput_no_angle)
  have b: "sanitizeInput s \<noteq> [] \<longrightarrow> \<not> is_space (hd (sanitizeInput s)) \<and> \<not> is_space (last (sanitizeInput s))"
    unfolding sanitizeInput_def using hd_trim last_trim by blast
  have c: "statusCode (fst (register x ts nowms db b)) = 201 \<longrightarrow>
      find (\<lambda>u. u_email u = toLowerCase (sanitizeInput (the_string (b ''email'')))) (users db) = None \<and>
      users (snd (register x ts nowms db b)) =
        users db @ [\<lparr>u_id = users_seq db + 1,
                      u_name = sanitizeInput (the_string (b ''name'')),
                      u_email = toLowerCase (sanitizeInput (the_string (b ''email''))),
                      u_password = bcrypt_hash x (the_string (b ''password'')) 12,
                      u_created_at = ts, u_updated_at = ts\<rparr>]"
    using register_201D(4,5) [of x ts nowms db b] by (simp add: add_user_def)
  have d: "find (\<lambda>u. u_email u = toLowerCase (sanitizeInput (the_string (b ''email'')))) (users db) \<noteq> None \<longrightarrow>
      statusCode (fst (register x ts nowms db b)) \<in> {400, 409} \<and> snd (register x ts nowms db b) = db"
    by (auto simp: register_sequential Let_def split: if_splits option.splits)
  from a b c d show ?thesis by blast
qed

theorem sanitizeInput_strips_and_register_uses_it_witness:
  "sanitizeInput '' <b>Ann</b> '' = ''bAnn/b'' \<and>
   statusCode (fst (register example_ext ''2026-01-01 00:00:00'' 5000 empty_db ann_registration)) = 201 \<and>
   users (snd (register example_ext ''2026-01-01 00:00:00'' 5000 empty_db ann_registration)) = [ann] \<and>
   find (\<lambda>u. u_email u = toLowerCase (sanitizeInput (the_string (ann_registration ''email''))))
     (users example_db) \<noteq> None \<and>
   statusCode (fst (register example_ext ''2026-01-02 00:00:00'' 6000 example_db ann_registration)) \<in> {400, 409} \<and>
   snd (register example_ext ''2026-01-02 00:00:00'' 6000 example_db ann_registration) = example_db"
proof -
  have ok: "statusCode (fst (register example_ext ''2026-01-01 00:00:00'' 5000 empty_db ann_registration)) = 201"
    by (rule register_created)
       (simp_all add: validateRegistration_ann ann_registration_simps sanitizeInput_Ann
          sanitizedEmail_ann empty_db_def)
  have dup: "find (\<lambda>u. u_email u = toLowerCase (sanitizeInput (the_string (ann_registration ''email''))))
     (users example_db) \<noteq> None"
    by (simp add: ann_registration_simps sanitizedEmail_ann example_db_simps ann_def)
  have row: "\<lparr>u_id = users_seq empty_db + 1,
       u_name = sanitizeInput (the_string (ann_registration ''name'')),
       u_email = toLowerCase (sanitizeInput (the_string (ann_registration ''email''))),
       u_password = bcrypt_hash example_ext (the_string (ann_registration ''password'')) 12,
       u_created_at = ''2026-01-01 00:00:00'', u_updated_at = ''2026-01-01 00:00:00''\<rparr> = ann"
    by (simp add: ann_registration_simps sanitizeInput_Ann sanitizedEmail_ann empty_db_def
          example_ext_def ann_def)
  have e: "users empty_db = []" by (simp add: empty_db_def)
  from sanitizeInput_strips_and_register_uses_it
         [of "'' <b>Ann</b> ''" example_ext "''2026-01-01 00:00:00''" 5000 empty_db ann_registration]
       sanitizeInput_strips_and_register_uses_it
         [of "'' <b>Ann</b> ''" example_ext "''2026-01-02 00:00:00''" 6000 example_db ann_registration]
       ok dup row e sanitizeInput_example
  show ?thesis by simp
qed






text \<open>
  When two requests with the same normalized email overlap, so that both have passed the
  duplicate check before either INSERT, the step \<open>register_insert\<close> of the second one meets
  the row of the first: the INSERT is refused, no row is added, and the \<open>catch\<close> branch,
  which looks for the code \<open>'23505'\<close>, answers 500 \<open>REGISTRATION_ERROR\<close>.
\<close>

lemma register_insert_refused:
  assumes "email \<in> set (map u_email (users db))"
  shows "register_insert x ts nowms db (name, email, password) =
           (send 500 [(''success'', JBool False),
                      (''message'', JStr ''Internal server error during registration''),
                      (''code'', JStr ''REGISTRATION_ERROR'')], db)"
  using assms by (simp add: register_insert_def insert_user_def)

lemma register_select_InrD:
  assumes "register_select db b = Inr (name, email, password)"
  shows "email \<notin> set (map u_email (users db))"
    and "email = toLowerCase (sanitizeInput (the_string (b ''email'')))"
proof -
  from assms have "find (\<lambda>u. u_email u = email) (users db) = None"
    and e: "email = toLowerCase (sanitizeInput (the_string (b ''email'')))"
    by (auto simp: register_select_def Let_def split: if_splits)
  then show "email \<notin> set (map u_email (users db))" by (auto simp: find_None_iff)
  show "email = toLowerCase (sanitizeInput (the_string (b ''email'')))" by (rule e)
qed

lemma register_insert_accepted:
  assumes "email \<notin> set (map u_email (users db))"
  shows "statusCode (fst (register_insert x ts nowms db (name, email, password))) = 201"
    and "snd (register_insert x ts nowms db (name, email, password)) =
           add_user db ts name email (bcrypt_hash x password 12)"
proof -
  obtain u where "find (\<lambda>u. u_id u = users_seq db + 1)
      (users db @ [\<lparr>u_id = users_seq db + 1, u_name = name, u_email = email,
         u_password = bcrypt_hash x password 12, u_created_at = ts, u_updated_at = ts\<rparr>]) = Some u"
    using find_new_user_Some [of "\<lparr>u_id = users_seq db + 1, u_name = name, u_email = email,
         u_password = bcrypt_hash x password 12, u_created_at = ts, u_updated_at = ts\<rparr>" "users db"]
    by auto
  then show "statusCode (fst (register_insert x ts nowms db (name, email, password))) = 201"
    and "snd (register_insert x ts nowms db (name, email, password)) =
           add_user db ts name email (bcrypt_hash x password 12)"
    using assms by (simp_all add: register_insert_def insert_user_def add_user_def Let_def)
qed

lemma register_overlapping_same_email:
  assumes "register_select db reqA = Inr (nameA, email, passwordA)"
    and "register_select db reqB = Inr (nameB, email, passwordB)"
  shows "statusCode (fst (register_insert x tsA nowA db (nameA, email, passwordA))) = 201"
    and "register_insert x tsB nowB (snd (register_insert x tsA nowA db (nameA, email, passwordA)))
           (nameB, email, passwordB) =
         (send 500 [(''success'', JBool False),
                    (''message'', JStr ''Internal server error during registration''),
                    (''code'', JStr ''REGISTRATION_ERROR'')],
          snd (register_insert x tsA nowA db (nameA, email, passwordA)))"
proof -
  have fresh: "email \<notin> set (map u_email (users db))"
    using register_select_InrD(1) [OF assms(1)] .
  show "statusCode (fst (register_insert x tsA nowA db (nameA, email, passwordA))) = 201"
    using register_insert_accepted(1) [OF fresh] .
  have "email \<in> set (map u_email (users (snd (register_insert x tsA nowA db (nameA, email, passwordA)))))"
    using register_insert_accepted(2) [OF fresh, of x tsA nowA nameA passwordA]
    by (simp add: add_user_def)
  then show "register_insert x tsB nowB (snd (register_insert x tsA nowA db (nameA, email, passwordA)))
           (nameB, email, passwordB) =
         (send 500 [(''success'', JBool False),
                    (''message'', JStr ''Internal server error during registration''),
                    (''code'', JStr ''REGISTRATION_ERROR'')],
          snd (register_insert x tsA nowA db (nameA, email, passwordA)))"
    by (rule register_insert_refused)
qed


section \<open>Login\<close>

lemma validateLogin_NilD:
  assumes "validateLogin b = []"
  shows "b ''email'' = Str (the_string (b ''email''))"
    and "b ''password'' = Str (the_string (b ''password''))"
proof -
  from assms have e: "is_string (b ''email'')" and p: "is_string (b ''password'')"
    by (auto simp: validateLogin_def Let_def split: if_splits)
  have str: "\<And>v. is_string v \<Longrightarrow> v = Str (the_string v)"
    by (case_tac v) simp_all
  show "b ''email'' = Str (the_string (b ''email''))" using e by (rule str)
  show "b ''password'' = Str (the_string (b ''password''))" using p by (rule str)
qed

lemma login_unknown_email:
  assumes "validateLogin b = []"
    and "\<forall>u \<in> set (users db). u_email u \<noteq> toLowerCase (sanitizeInput (the_string (b ''email'')))"
  shows "login x nowms db b =
           send 401 [(''success'', JBool False), (''message'', JStr ''Invalid email or password''),
                     (''code'', JStr ''INVALID_CREDENTIALS'')]"
proof -
  have "find (\<lambda>u. u_email u = toLowerCase (sanitizeInput (the_string (b ''email'')))) (users db) = None"
    using assms(2) by (auto simp: find_None_iff)
  then show ?thesis using assms(1) by (simp add: login_def Let_def)
qed

lemma login_wrong_password:
  assumes "validateLogin b = []"
    and "\<exists>u \<in> set (users db). u_email u = toLowerCase (sanitizeInput (the_string (b ''email'')))"
    and "\<forall>u \<in> set (users db). u_email u = toLowerCase (sanitizeInput (the_string (b ''email''))) \<longrightarrow>
           \<not> bcrypt_compare x (the_string (b ''password'')) (u_password u)"
  shows "login x nowms db b =
           send 401 [(''success'', JBool False), (''message'', JStr ''Invalid email or password''),
                     (''code'', JStr ''INVALID_CREDENTIALS'')]"
proof -
  obtain u where u: "find (\<lambda>u. u_email u = toLowerCase (sanitizeInput (the_string (b ''email'')))) (users db) = Some u"
    using assms(2) by (cases "find (\<lambda>u. u_email u = toLowerCase (sanitizeInput (the_string (b ''email'')))) (users db)")
      (auto simp: find_None_iff)
  then have "u \<in> set (users db)" "u_email u = toLowerCase (sanitizeInput (the_string (b ''email'')))"
    by (auto simp: find_Some_iff)
  then have "\<not> bcrypt_compare x (the_string (b ''password'')) (u_password u)"
    using assms(3) by blast
  then show ?thesis using assms(1) u by (simp add: login_def Let_def)
qed

text \<open>
  Claim C2. In every state of the users table, a login request whose email matches no user
  and a login request whose email exists but whose password fails \<open>bcrypt.compare\<close> get
  the status code 401 and equal bodies. Both requests have passed the middleware
  \<open>validateLogin\<close> (a non-empty email and password), which answers 400 before any lookup.
\<close>

theorem login_failures_indistinguishable:
  assumes "validateLogin reqA = []" and "validateLogin reqB = []"
    and "\<forall>u \<in> set (users db). u_email u \<noteq> toLowerCase (sanitizeInput (the_string (reqA ''email'')))"
    and "\<exists>u \<in> set (users db). u_email u = toLowerCase (sanitizeInput (the_string (reqB ''email'')))"
    and "\<forall>u \<in> set (users db). u_email u = toLowerCase (sanitizeInput (the_string (reqB ''email''))) \<longrightarrow>
           \<not> bcrypt_compare x (the_string (reqB ''password'')) (u_password u)"
  shows "statusCode (login x nowA db reqA) = 401 \<and> statusCode (login x nowB db reqB) = 401 \<and>
         body (login x nowA db reqA) = body (login x nowB db reqB)"
  using login_unknown_email [of reqA db x nowA] login_wrong_password [of reqB db x nowB] assms
  by simp

theorem login_failures_indistinguishable_witness:
  "validateLogin (body_of [(''email'', Str ''carol@x.com''), (''password'', Str ''Abc123'')]) = [] \<and>
   validateLogin (body_of [(''email'', Str ''ann@x.com''), (''password'', Str ''wrong'')]) = [] \<and>
   login example_ext 5000 example_db (body_of [(''email'', Str ''carol@x.com''), (''password'', Str ''Abc123'')]) =
   login example_ext 6000 example_db (body_of [(''email'', Str ''ann@x.com''), (''password'', Str ''wrong'')]) \<and>
   statusCode (login example_ext 5000 example_db
      (body_of [(''email'', Str ''carol@x.com''), (''password'', Str ''Abc123'')])) = 401"
proof -
  let ?a = "body_of [(''email'', Str ''carol@x.com''), (''password'', Str ''Abc123'')]"
  let ?b = "body_of [(''email'', Str ''ann@x.com''), (''password'', Str ''wrong'')]"
  have a: "?a ''email'' = Str ''carol@x.com''" "?a ''password'' = Str ''Abc123''"
    by (simp_all add: body_of_def)
  have b: "?b ''email'' = Str ''ann@x.com''" "?b ''password'' = Str ''wrong''"
    by (simp_all add: body_of_def)
  have va: "validateLogin ?a = []" by (simp add: validateLogin_def a str_defs)
  have vb: "validateLogin ?b = []" by (simp add: validateLogin_def b str_defs)
  have ea: "toLowerCase (sanitizeInput (the_string (?a ''email''))) = ''carol@x.com''"
    by (simp add: a str_defs)
  have eb: "toLowerCase (sanitizeInput (the_string (?b ''email''))) = ''ann@x.com''"
    by (simp add: b str_defs)
  have h3: "\<forall>u \<in> set (users example_db). u_email u \<noteq> toLowerCase (sanitizeInput (the_string (?a ''email'')))"
    by (simp add: ea example_db_simps ann_def bob_def)
  have h4: "\<exists>u \<in> set (users example_db). u_email u = toLowerCase (sanitizeInput (the_string (?b ''email'')))"
    by (simp add: eb example_db_simps ann_def bob_def)
  have h5: "\<forall>u \<in> set (users example_db). u_email u = toLowerCase (sanitizeInput (the_string (?b ''email''))) \<longrightarrow>
           \<not> bcrypt_compare example_ext (the_string (?b ''password'')) (u_password u)"
    by (simp add: eb b example_db_simps ann_def bob_def example_ext_def)
  from login_failures_indistinguishable
         [where reqA = ?a and reqB = ?b and db = example_db and x = example_ext
            and nowA = 5000 and nowB = 6000, OF va vb h3 h4 h5] va vb
  show ?thesis by (simp add: response.equality)
qed

section \<open>The password rule at registration\<close>

text \<open>
  Claim C3. The route checks the length of the password only. The registration
  \<open>{name: 'Ann', email: 'ann@x.com', password: 'abcdef', confirmPassword: 'abcdef'}\<close>, whose
  password has neither an upper-case letter nor a digit, is answered 201 and its user row
  is inserted.
\<close>

theorem register_accepts_password_of_lower_case_letters:
  "statusCode (fst (register example_ext ''2026-01-01 00:00:00'' 5000 empty_db
      (body_of [(''name'', Str ''Ann''), (''email'', Str ''ann@x.com''),
                (''password'', Str ''abcdef''), (''confirmPassword'', Str ''abcdef'')]))) = 201 \<and>
   users (snd (register example_ext ''2026-01-01 00:00:00'' 5000 empty_db
      (body_of [(''name'', Str ''Ann''), (''email'', Str ''ann@x.com''),
                (''password'', Str ''abcdef''), (''confirmPassword'', Str ''abcdef'')]))) =
     [\<lparr>u_id = 1, u_name = ''Ann'', u_email = ''ann@x.com'', u_password = ''$2a$abcdef'',
       u_created_at = ''2026-01-01 00:00:00'', u_updated_at = ''2026-01-01 00:00:00''\<rparr>]"
proof -
  let ?b = "body_of [(''name'', Str ''Ann''), (''email'', Str ''ann@x.com''),
                (''password'', Str ''abcdef''), (''confirmPassword'', Str ''abcdef'')]"
  have b: "?b ''name'' = Str ''Ann''" "?b ''email'' = Str ''ann@x.com''"
    "?b ''password'' = Str ''abcdef''" "?b ''confirmPassword'' = Str ''abcdef''"
    by (simp_all add: body_of_def)
  have valid: "validateRegistration ?b = []"
    by (simp add: validateRegistration_def b emailRegex_test_def str_defs)
  have ok: "statusCode (fst (register example_ext ''2026-01-01 00:00:00'' 5000 empty_db ?b)) = 201"
    by (rule register_created)
       (simp_all add: valid b sanitizeInput_Ann sanitizedEmail_ann empty_db_def)
  from register_201D(5) [OF ok] ok show ?thesis
    by (simp add: add_user_def b sanitizeInput_Ann sanitizedEmail_ann empty_db_def example_ext_def)
qed


section \<open>Creating and updating tasks\<close>

lemma trim_Nil [simp]: "trim [] = []"
  by (simp add: trim_def)

lemma createTask_created:
  assumes "b ''title'' = Str s" and "trim s \<noteq> []"
    and "st = (if b ''status'' = Undefined then Str ''To Do'' else b ''status'')"
    and "\<not> truthy st \<or> status_included st"
    and "description_param (b ''description'') = Some d"
    and "uid \<in> set (map u_id (users db))"
  shows "createTask ts db uid b =
           (send 201 [(''success'', JBool True), (''message'', JStr ''Task created successfully''),
                      (''data'', JObj [(''id'', JNum (int (tasks_seq db + 1))),
                                       (''changes'', JNum 1), (''rows'', JArr [])])],
            insert_task db ts (trim s) d (bind st) (bind (or_null (b ''deadline'')))
              (bind (or_null (b ''reminder_time''))) uid)"
proof -
  have "s \<noteq> []" using assms(2) by auto
  then show ?thesis
    using assms by (auto simp: createTask_def Let_def insert_task_def)
qed

lemma createTask_not_201_unchanged:
  "statusCode (fst (createTask ts db uid b)) \<noteq> 201 \<Longrightarrow> snd (createTask ts db uid b) = db"
  by (auto simp: createTask_def Let_def split: if_splits option.splits)

lemma createTask_invalid_status:
  assumes "b ''status'' \<noteq> Undefined" and "truthy (b ''status'')" and "\<not> status_included (b ''status'')"
  shows "statusCode (fst (createTask ts db uid b)) \<in> {400, 500}" and "snd (createTask ts db uid b) = db"
  using assms by (auto simp: createTask_def Let_def invalid_status_def internal_error_def split: if_splits option.splits)

lemma length_updates_of:
  "(length (updates_of b) = 0) = (\<forall>k \<in> set updatable_fields. b k = Undefined)"
  by (simp add: updates_of_def updatable_fields_def)

lemma fold_updates_of:
  "fold (\<lambda>f r. f r) (updates_of b) t =
     \<lparr>t_id = t_id t,
      t_title = (if b ''title'' = Undefined then t_title t else trim (the_string (b ''title''))),
      t_description = (if b ''description'' = Undefined then t_description t
                       else (case description_param (b ''description'') of Some d \<Rightarrow> d | None \<Rightarrow> [])),
      t_status = (if b ''status'' = Undefined then t_status t else bind (b ''status'')),
      t_user_id = t_user_id t, t_created_at = t_created_at t, t_updated_at = t_updated_at t,
      t_deadline = (if b ''deadline'' = Undefined then t_deadline t else bind (b ''deadline'')),
      t_reminder_time = (if b ''reminder_time'' = Undefined then t_reminder_time t
                         else bind (b ''reminder_time''))\<rparr>"
  by (simp add: updates_of_def)

lemma find_owned_Some:
  assumes "t \<in> set ts" and "t_id t = i" and "t_user_id t = uid"
  shows "\<exists>e. find (\<lambda>r. t_id r = i \<and> t_user_id r = uid) ts = Some e"
  using assms by (cases "find (\<lambda>r. t_id r = i \<and> t_user_id r = uid) ts") (auto simp: find_None_iff)

lemma updateTask_not_200_unchanged:
  "statusCode (fst (updateTask ts db uid i b)) \<noteq> 200 \<Longrightarrow> snd (updateTask ts db uid i b) = db"
  by (auto simp: updateTask_def Let_def split: if_splits option.splits)

lemma updateTask_200D:
  assumes "statusCode (fst (updateTask ts db uid i b)) = 200"
  shows "\<exists>k \<in> set updatable_fields. b k \<noteq> Undefined"
    and "snd (updateTask ts db uid i b) = run_update db (updates_of b) ts i uid"
    and "b ''description'' = Undefined \<or> description_param (b ''description'') \<noteq> None"
proof -
  from assms have "length (updates_of b) \<noteq> 0"
    by (auto simp: updateTask_def Let_def task_not_found_def internal_error_def invalid_status_def
          split: if_splits option.splits)
  then show "\<exists>k \<in> set updatable_fields. b k \<noteq> Undefined"
    using length_updates_of [of b] by blast
  from assms show "snd (updateTask ts db uid i b) = run_update db (updates_of b) ts i uid"
    by (auto simp: updateTask_def Let_def task_not_found_def internal_error_def invalid_status_def
          split: if_splits option.splits)
  from assms show "b ''description'' = Undefined \<or> description_param (b ''description'') \<noteq> None"
    by (auto simp: updateTask_def Let_def task_not_found_def internal_error_def invalid_status_def
          split: if_splits option.splits)
qed

lemma updateTask_no_fields:
  assumes "find (\<lambda>r. t_id r = i \<and> t_user_id r = uid) (tasks db) = Some e"
    and "\<forall>k \<in> set updatable_fields. b k = Undefined"
  shows "updateTask ts db uid i b =
           (send 400 [(''success'', JBool False), (''message'', JStr ''No fields to update'')], db)"
proof -
  have "length (updates_of b) = 0" using assms(2) length_updates_of [of b] by blast
  moreover have "b ''title'' = Undefined" "b ''status'' = Undefined" "b ''description'' = Undefined"
    using assms(2) by (simp_all add: updatable_fields_def)
  ultimately show ?thesis using assms(1) by (simp add: updateTask_def Let_def)
qed

lemma updateTask_accepted:
  assumes "find (\<lambda>r. t_id r = i \<and> t_user_id r = uid) (tasks db) = Some e"
    and "\<exists>k \<in> set updatable_fields. b k \<noteq> Undefined"
    and "b ''title'' = Undefined \<or> (is_string (b ''title'') \<and> trim (the_string (b ''title'')) \<noteq> [])"
    and "\<not> truthy (b ''status'') \<or> status_included (b ''status'')"
    and "b ''description'' = Undefined \<or> description_param (b ''description'') \<noteq> None"
  shows "statusCode (fst (updateTask ts db uid i b)) = 200"
proof -
  have "length (updates_of b) \<noteq> 0" using assms(2) length_updates_of [of b] by blast
  then show ?thesis using assms(1,3,4,5) by (auto simp: updateTask_def Let_def)
qed

lemma updateTask_invalid_status:
  assumes "truthy (b ''status'')" and "\<not> status_included (b ''status'')"
  shows "statusCode (fst (updateTask ts db uid i b)) \<in> {400, 404, 500}"
    and "snd (updateTask ts db uid i b) = db"
  using assms
  by (auto simp: updateTask_def Let_def task_not_found_def internal_error_def invalid_status_def
        split: if_splits option.splits)

lemma description_param_value:
  "description_param v \<noteq> None \<Longrightarrow>
     (case description_param v of Some d \<Rightarrow> d | None \<Rightarrow> []) = (case v of Str s \<Rightarrow> trim s | _ \<Rightarrow> [])"
  by (cases v) simp_all

text \<open>
  Claim C5. For a task of the store and its owner, \<open>PUT /:id\<close> behaves as follows. A body
  with none of the five properties is answered 400 and nothing changes; every answer other
  than 200 leaves the database as it was. An answer 200 means that one property at least
  was present, and the rows with this identifier and owner are the old ones where every
  present property has replaced its column (the title and the description trimmed, a
  \<open>null\<close> description as the empty string), every other column is kept and \<open>updated_at\<close> is
  the current time; all other rows are kept. The answer is 200 whenever a property is
  present and the values pass the handler's checks: the title, if present, is a string
  that is not blank, the status is falsy or one of the three, the description is absent,
  \<open>null\<close> or a string.
\<close>

theorem updateTask_changes_supplied_fields_only:
  assumes "t \<in> set (tasks db)" and "t_id t = i" and "t_user_id t = uid"
  shows "((\<forall>k \<in> set updatable_fields. b k = Undefined) \<longrightarrow>
            statusCode (fst (updateTask ts db uid i b)) = 400 \<and> snd (updateTask ts db uid i b) = db) \<and>
         (statusCode (fst (updateTask ts db uid i b)) \<noteq> 200 \<longrightarrow> snd (updateTask ts db uid i b) = db) \<and>
         (statusCode (fst (updateTask ts db uid i b)) = 200 \<longrightarrow>
            (\<exists>k \<in> set updatable_fields. b k \<noteq> Undefined) \<and>
            snd (updateTask ts db uid i b) =
              db\<lparr>tasks := map (\<lambda>r. if t_id r = i \<and> t_user_id r = uid then
                  \<lparr>t_id = t_id r,
                   t_title = (if b ''title'' = Undefined then t_title r
                              else trim (the_string (b ''title''))),
                   t_description = (if b ''description'' = Undefined then t_description r
                                    else (case b ''description'' of Str s \<Rightarrow> trim s | _ \<Rightarrow> [])),
                   t_status = (if b ''status'' = Undefined then t_status r else bind (b ''status'')),
                   t_user_id = t_user_id r, t_created_at = t_created_at r, t_updated_at = ts,
                   t_deadline = (if b ''deadline'' = Undefined then t_deadline r
                                 else bind (b ''deadline'')),
                   t_reminder_time = (if b ''reminder_time'' = Undefined then t_reminder_time r
                                      else bind (b ''reminder_time''))\<rparr>
                  else r) (tasks db)\<rparr>) \<and>
         ((\<exists>k \<in> set updatable_fields. b k \<noteq> Undefined) \<and>
          (b ''title'' = Undefined \<or> (is_string (b ''title'') \<and> trim (the_string (b ''title'')) \<noteq> [])) \<and>
          (\<not> truthy (b ''status'') \<or> status_included (b ''status'')) \<and>
          (b ''description'' = Undefined \<or> b ''description'' = Null \<or> is_string (b ''description'')) \<longrightarrow>
            statusCode (fst (updateTask ts db uid i b)) = 200)"
proof -
  obtain e where e: "find (\<lambda>r. t_id r = i \<and> t_user_id r = uid) (tasks db) = Some e"
    using find_owned_Some [OF assms] by blast
  have p1: "(\<forall>k \<in> set updatable_fields. b k = Undefined) \<longrightarrow>
            statusCode (fst (updateTask ts db uid i b)) = 400 \<and> snd (updateTask ts db uid i b) = db"
    using updateTask_no_fields [OF e, of b ts] by simp
  have p2: "statusCode (fst (updateTask ts db uid i b)) \<noteq> 200 \<longrightarrow> snd (updateTask ts db uid i b) = db"
    using updateTask_not_200_unchanged [of ts db uid i b] by blast
  have p3: "statusCode (fst (updateTask ts db uid i b)) = 200 \<longrightarrow>
            (\<exists>k \<in> set updatable_fields. b k \<noteq> Undefined) \<and>
            snd (updateTask ts db uid i b) =
              db\<lparr>tasks := map (\<lambda>r. if t_id r = i \<and> t_user_id r = uid then
                  \<lparr>t_id = t_id r,
                   t_title = (if b ''title'' = Undefined then t_title r
                              else trim (the_string (b ''title''))),
                   t_description = (if b ''description'' = Undefined then t_description r
                                    else (case b ''description'' of Str s \<Rightarrow> trim s | _ \<Rightarrow> [])),
                   t_status = (if b ''status'' = Undefined then t_status r else bind (b ''status'')),
                   t_user_id = t_user_id r, t_created_at = t_created_at r, t_updated_at = ts,
                   t_deadline = (if b ''deadline'' = Undefined then t_deadline r
                                 else bind (b ''deadline'')),
                   t_reminder_time = (if b ''reminder_time'' = Undefined then t_reminder_time r
                                      else bind (b ''reminder_time''))\<rparr>
                  else r) (tasks db)\<rparr>"
  proof
    assume ok: "statusCode (fst (updateTask ts db uid i b)) = 200"
    have d: "b ''description'' \<noteq> Undefined \<Longrightarrow>
        (case description_param (b ''description'') of Some d \<Rightarrow> d | None \<Rightarrow> []) =
        (case b ''description'' of Str s \<Rightarrow> trim s | _ \<Rightarrow> [])"
      using updateTask_200D(3) [OF ok] description_param_value by blast
    show "(\<exists>k \<in> set updatable_fields. b k \<noteq> Undefined) \<and>
            snd (updateTask ts db uid i b) =
              db\<lparr>tasks := map (\<lambda>r. if t_id r = i \<and> t_user_id r = uid then
                  \<lparr>t_id = t_id r,
                   t_title = (if b ''title'' = Undefined then t_title r
                              else trim (the_string (b ''title''))),
                   t_description = (if b ''description'' = Undefined then t_description r
                                    else (case b ''description'' of Str s \<Rightarrow> trim s | _ \<Rightarrow> [])),
                   t_status = (if b ''status'' = Undefined then t_status r else bind (b ''status'')),
                   t_user_id = t_user_id r, t_created_at = t_created_at r, t_updated_at = ts,
                   t_deadline = (if b ''deadline'' = Undefined then t_deadline r
                                 else bind (b ''deadline'')),
                   t_reminder_time = (if b ''reminder_time'' = Undefined then t_reminder_time r
                                      else bind (b ''reminder_time''))\<rparr>
                  else r) (tasks db)\<rparr>"
      using updateTask_200D(1,2) [OF ok] d
      by (simp add: run_update_def fold_updates_of cong: map_cong)
  qed
  have dp: "b ''description'' = Null \<or> is_string (b ''description'') \<Longrightarrow>
      description_param (b ''description'') \<noteq> None"
    by (cases "b ''description''") simp_all
  have p4: "(\<exists>k \<in> set updatable_fields. b k \<noteq> Undefined) \<and>
          (b ''title'' = Undefined \<or> (is_string (b ''title'') \<and> trim (the_string (b ''title'')) \<noteq> [])) \<and>
          (\<not> truthy (b ''status'') \<or> status_included (b ''status'')) \<and>
          (b ''description'' = Undefined \<or> b ''description'' = Null \<or> is_string (b ''description'')) \<longrightarrow>
            statusCode (fst (updateTask ts db uid i b)) = 200"
    using updateTask_accepted [OF e, of b ts] dp by blast
  from p1 p2 p3 p4 show ?thesis by blast
qed

theorem updateTask_changes_supplied_fields_only_witness:
  "write_spec \<in> set (tasks example_db) \<and> t_id write_spec = 1 \<and> t_user_id write_spec = 1 \<and>
   body_of [] ''title'' = Undefined \<and> body_of [] ''description'' = Undefined \<and>
   body_of [] ''status'' = Undefined \<and> body_of [] ''deadline'' = Undefined \<and>
   body_of [] ''reminder_time'' = Undefined \<and>
   statusCode (fst (updateTask ''2026-01-05 00:00:00'' example_db 1 1 (body_of []))) = 400 \<and>
   snd (updateTask ''2026-01-05 00:00:00'' example_db 1 1 (body_of [])) = example_db \<and>
   statusCode (fst (updateTask ''2026-01-05 00:00:00'' example_db 1 1
                      (body_of [(''status'', Str ''Done'')]))) = 200 \<and>
   tasks (snd (updateTask ''2026-01-05 00:00:00'' example_db 1 1 (body_of [(''status'', Str ''Done'')]))) =
     [write_spec\<lparr>t_status := SqlText ''Done'', t_updated_at := ''2026-01-05 00:00:00''\<rparr>]"
proof -
  let ?b = "body_of [(''status'', Str ''Done'')]"
  have h: "write_spec \<in> set (tasks example_db)" "t_id write_spec = 1" "t_user_id write_spec = 1"
    by (simp_all add: example_db_simps write_spec_def)
  have e: "\<forall>k \<in> set updatable_fields. body_of [] k = Undefined"
    by (simp add: body_of_def)
  have b: "?b ''title'' = Undefined" "?b ''description'' = Undefined" "?b ''status'' = Str ''Done''"
    "?b ''deadline'' = Undefined" "?b ''reminder_time'' = Undefined"
    by (simp_all add: body_of_def)
  have acc: "(\<exists>k \<in> set updatable_fields. ?b k \<noteq> Undefined) \<and>
      (?b ''title'' = Undefined \<or> (is_string (?b ''title'') \<and> trim (the_string (?b ''title'')) \<noteq> [])) \<and>
      (\<not> truthy (?b ''status'') \<or> status_included (?b ''status'')) \<and>
      (?b ''description'' = Undefined \<or> ?b ''description'' = Null \<or> is_string (?b ''description''))"
    by (simp add: b updatable_fields_def status_included_def valid_statuses_def)
  have row: "\<lparr>t_id = t_id write_spec, t_title = t_title write_spec,
       t_description = t_description write_spec, t_status = SqlText ''Done'',
       t_user_id = t_user_id write_spec, t_created_at = t_created_at write_spec,
       t_updated_at = ''2026-01-05 00:00:00'', t_deadline = t_deadline write_spec,
       t_reminder_time = t_reminder_time write_spec\<rparr> =
     write_spec\<lparr>t_status := SqlText ''Done'', t_updated_at := ''2026-01-05 00:00:00''\<rparr>"
    by simp
  from updateTask_changes_supplied_fields_only [OF h, where b = "body_of []" and ts = "''2026-01-05 00:00:00''"]
       updateTask_changes_supplied_fields_only [OF h, where b = ?b and ts = "''2026-01-05 00:00:00''"]
       h e acc row
  show ?thesis by (simp add: b example_db_simps body_of_def)
qed

lemma or_null_simps [simp]:
  "or_null Undefined = Null" "or_null Null = Null" "s \<noteq> [] \<Longrightarrow> or_null (Str s) = Str s"
  by (simp_all add: or_null_def)

text \<open>
  Claim C4. The status check of both handlers is guarded by \<open>status &&\<close>, so a falsy value
  that is supplied passes it. For Ann in the example database,
  \<open>POST / {title: 'x', status: ''}\<close> is answered 201 and stores a task whose status is the
  empty string, and \<open>PUT /1 {status: null}\<close> is answered 200 and sets the status of task 1
  to NULL.
\<close>

theorem createTask_and_updateTask_accept_falsy_status:
  "statusCode (fst (createTask ''2026-01-05 00:00:00'' example_db 1
      (body_of [(''title'', Str ''x''), (''status'', Str [])]))) = 201 \<and>
   map t_status (tasks (snd (createTask ''2026-01-05 00:00:00'' example_db 1
      (body_of [(''title'', Str ''x''), (''status'', Str [])])))) = [SqlText ''To Do'', SqlText []] \<and>
   statusCode (fst (updateTask ''2026-01-05 00:00:00'' example_db 1 1
      (body_of [(''status'', Null)]))) = 200 \<and>
   map t_status (tasks (snd (updateTask ''2026-01-05 00:00:00'' example_db 1 1
      (body_of [(''status'', Null)])))) = [SqlNull]"
proof -
  let ?c = "body_of [(''title'', Str ''x''), (''status'', Str [])]"
  let ?u = "body_of [(''status'', Null)]"
  have c: "?c ''title'' = Str ''x''" "?c ''description'' = Undefined" "?c ''status'' = Str []"
    "?c ''deadline'' = Undefined" "?c ''reminder_time'' = Undefined"
    by (simp_all add: body_of_def)
  have u: "?u ''title'' = Undefined" "?u ''description'' = Undefined" "?u ''status'' = Null"
    "?u ''deadline'' = Undefined" "?u ''reminder_time'' = Undefined"
    by (simp_all add: body_of_def)
  have tx: "trim ''x'' = ''x''" by (simp add: trim_def is_space_def)
  have cr: "createTask ''2026-01-05 00:00:00'' example_db 1 ?c =
      (send 201 [(''success'', JBool True), (''message'', JStr ''Task created successfully''),
                 (''data'', JObj [(''id'', JNum (int (tasks_seq example_db + 1))),
                                  (''changes'', JNum 1), (''rows'', JArr [])])],
       insert_task example_db ''2026-01-05 00:00:00'' (trim ''x'') [] (bind (Str []))
         (bind (or_null (?c ''deadline''))) (bind (or_null (?c ''reminder_time''))) 1)"
    by (rule createTask_created [where s = "''x''"])
       (simp_all add: c tx example_db_simps ann_def bob_def)
  have f: "find (\<lambda>r. t_id r = 1 \<and> t_user_id r = 1) (tasks example_db) = Some write_spec"
    by (simp add: example_db_simps write_spec_def)
  have up: "statusCode (fst (updateTask ''2026-01-05 00:00:00'' example_db 1 1 ?u)) = 200"
    by (rule updateTask_accepted [OF f]) (simp_all add: u updatable_fields_def)
  from updateTask_200D(2) [OF up] cr up show ?thesis
    by (simp add: insert_task_def run_update_def fold_updates_of u example_db_simps write_spec_def)
qed

text \<open>
  Claim C6. The handler of \<open>POST /\<close> does not look at the deadline beyond \<open>deadline || null\<close>.
  For Ann in the example database, \<open>POST / {title: 'x', deadline: 'not-a-date'}\<close> is
  answered 201 and the new row holds the text \<open>not-a-date\<close> as its deadline.
\<close>

theorem createTask_stores_unparsable_deadline:
  "statusCode (fst (createTask ''2026-01-05 00:00:00'' example_db 1
      (body_of [(''title'', Str ''x''), (''deadline'', Str ''not-a-date'')]))) = 201 \<and>
   map t_deadline (tasks (snd (createTask ''2026-01-05 00:00:00'' example_db 1
      (body_of [(''title'', Str ''x''), (''deadline'', Str ''not-a-date'')])))) =
     [SqlNull, SqlText ''not-a-date'']"
proof -
  let ?c = "body_of [(''title'', Str ''x''), (''deadline'', Str ''not-a-date'')]"
  have c: "?c ''title'' = Str ''x''" "?c ''description'' = Undefined" "?c ''status'' = Undefined"
    "?c ''deadline'' = Str ''not-a-date''" "?c ''reminder_time'' = Undefined"
    by (simp_all add: body_of_def)
  have tx: "trim ''x'' = ''x''" by (simp add: trim_def is_space_def)
  have cr: "createTask ''2026-01-05 00:00:00'' example_db 1 ?c =
      (send 201 [(''success'', JBool True), (''message'', JStr ''Task created successfully''),
                 (''data'', JObj [(''id'', JNum (int (tasks_seq example_db + 1))),
                                  (''changes'', JNum 1), (''rows'', JArr [])])],
       insert_task example_db ''2026-01-05 00:00:00'' (trim ''x'') [] (bind (Str ''To Do''))
         (bind (or_null (?c ''deadline''))) (bind (or_null (?c ''reminder_time''))) 1)"
    by (rule createTask_created [where s = "''x''"])
       (simp_all add: c tx example_db_simps ann_def bob_def status_included_def valid_statuses_def)
  then show ?thesis
    by (simp add: insert_task_def c example_db_simps write_spec_def)
qed


section \<open>The reminder job\<close>

lemma sql_and_True_iff: "(sql_and a b = Some True) = (a = Some True \<and> b = Some True)"
  by (cases a; cases b) (auto split: bool.splits elim: sql_and.elims)

lemma reminder_where_True_iff:
  "(reminder_where now t = Some True) =
     ((case t_reminder_time t of SqlNull \<Rightarrow> False | SqlInt n \<Rightarrow> True | SqlText r \<Rightarrow> r \<le> now) \<and>
      t_status t \<noteq> SqlNull \<and> t_status t \<noteq> SqlText ''Done'')"
  by (cases "t_reminder_time t"; cases "t_status t") (auto simp: reminder_where_def sql_and_True_iff)

lemma reminder_where_mono:
  assumes "reminder_where now t = Some True" and "now \<le> later"
    and "t_status t' = t_status t" and "t_reminder_time t' = t_reminder_time t"
  shows "reminder_where later t' = Some True"
  using assms unfolding reminder_where_True_iff
  by (cases "t_reminder_time t") auto

lemma joined_rows:
  "[(t, u_email u). u \<leftarrow> us, t_user_id t = u_id u, w] =
     map (\<lambda>u. (t, u_email u)) (filter (\<lambda>u. t_user_id t = u_id u \<and> w) us)"
  by (induction us) auto

lemma unique_owner:
  assumes "distinct (map u_id us)" and "x \<in> u_id ` set us"
  shows "\<exists>u. filter (\<lambda>u. x = u_id u) us = [u]"
  using assms
proof (induction us)
  case Nil
  then show ?case by simp
next
  case (Cons a us)
  show ?case
  proof (cases "x = u_id a")
    case True
    then have "filter (\<lambda>u. x = u_id u) us = []"
      using Cons.prems(1) by (auto simp: filter_empty_conv)
    with True show ?thesis by simp
  next
    case False
    then show ?thesis using Cons by auto
  qed
qed

lemma reminder_query_tasks:
  assumes "distinct (map u_id us)" and "\<forall>t \<in> set ts. t_user_id t \<in> u_id ` set us"
  shows "map fst (concat (map (\<lambda>t. [(t, u_email u). u \<leftarrow> us, t_user_id t = u_id u,
                                      reminder_where now t = Some True]) ts)) =
         filter (\<lambda>t. reminder_where now t = Some True) ts"
  using assms(2)
proof (induction ts)
  case Nil
  then show ?case by simp
next
  case (Cons t ts)
  obtain u where u: "filter (\<lambda>u. t_user_id t = u_id u) us = [u]"
    using unique_owner [OF assms(1), of "t_user_id t"] Cons.prems by auto
  have "map fst [(t, u_email u). u \<leftarrow> us, t_user_id t = u_id u, reminder_where now t = Some True] =
        (if reminder_where now t = Some True then [t] else [])"
    unfolding joined_rows using u by (simp add: filter_empty_conv)
  moreover have "map fst (concat (map (\<lambda>t. [(t, u_email u). u \<leftarrow> us, t_user_id t = u_id u,
                                      reminder_where now t = Some True]) ts)) =
         filter (\<lambda>t. reminder_where now t = Some True) ts"
    using Cons by simp
  ultimately show ?case by simp
qed

lemma reminder_query_selected:
  assumes "distinct (map u_id (users db))"
    and "\<forall>t \<in> set (tasks db). t_user_id t \<in> u_id ` set (users db)"
  shows "map fst (reminder_query now db) = filter (\<lambda>t. reminder_where now t = Some True) (tasks db)"
  using reminder_query_tasks [OF assms] by (simp add: reminder_query_def)

lemma reminder_query_member:
  "t \<in> fst ` set (reminder_query now db) \<longleftrightarrow>
     t \<in> set (tasks db) \<and> t_user_id t \<in> u_id ` set (users db) \<and> reminder_where now t = Some True"
  by (auto simp: reminder_query_def image_iff)

text \<open>
  Claim C9. In a database that keeps the primary key of \<open>users\<close> and the foreign key of
  \<open>tasks.user_id\<close>, a run of the reminder job at the time \<open>now\<close> (the text of
  \<open>toISOString()\<close>) finds each task once whose reminder time is not NULL and at most \<open>now\<close>
  in SQLite's order (a number sorts before every text, texts by their characters, which
  for \<open>toISOString()\<close> texts is the order of time) and whose status has a value other than
  \<open>'Done'\<close>, and no other task. The run logs one line for each and returns the database as
  it was: it keeps no record of what it has reported. So a task found at \<open>now\<close> is found
  again by any run at a later time in any later database, as long as the row is there with
  its owner, its status and its reminder time unchanged; and no run finds a task whose
  status is \<open>'Done'\<close>, whose reminder time is NULL or whose reminder time is a text after
  \<open>now\<close>.
\<close>

theorem reminder_job_reports_due_tasks_on_every_run:
  assumes "distinct (map u_id (users db))"
    and "\<forall>t \<in> set (tasks db). t_user_id t \<in> u_id ` set (users db)"
  shows "map fst (reminder_query now db) =
           filter (\<lambda>t. (case t_reminder_time t of
                            SqlNull \<Rightarrow> False | SqlInt n \<Rightarrow> True | SqlText r \<Rightarrow> r \<le> now) \<and>
                        t_status t \<noteq> SqlNull \<and> t_status t \<noteq> SqlText ''Done'') (tasks db) \<and>
         reminder_job now db = (map reminder_line (reminder_query now db), db) \<and>
         (\<forall>t t' later db'.
            t \<in> fst ` set (reminder_query now db) \<and> now \<le> later \<and>
            t' \<in> set (tasks db') \<and> t_user_id t' \<in> u_id ` set (users db') \<and>
            t_status t' = t_status t \<and> t_reminder_time t' = t_reminder_time t \<longrightarrow>
            t' \<in> fst ` set (reminder_query later db')) \<and>
         (\<forall>t. t_status t = SqlText ''Done'' \<or> t_reminder_time t = SqlNull \<or>
              (\<exists>r. t_reminder_time t = SqlText r \<and> now < r) \<longrightarrow>
              t \<notin> fst ` set (reminder_query now db))"
proof -
  have a: "map fst (reminder_query now db) =
           filter (\<lambda>t. (case t_reminder_time t of
                            SqlNull \<Rightarrow> False | SqlInt n \<Rightarrow> True | SqlText r \<Rightarrow> r \<le> now) \<and>
                        t_status t \<noteq> SqlNull \<and> t_status t \<noteq> SqlText ''Done'') (tasks db)"
    using reminder_query_selected [OF assms, of now] by (simp add: reminder_where_True_iff)
  have b: "reminder_job now db = (map reminder_line (reminder_query now db), db)"
    by (simp add: reminder_job_def)
  have c: "\<forall>t t' later db'.
            t \<in> fst ` set (reminder_query now db) \<and> now \<le> later \<and>
            t' \<in> set (tasks db') \<and> t_user_id t' \<in> u_id ` set (users db') \<and>
            t_status t' = t_status t \<and> t_reminder_time t' = t_reminder_time t \<longrightarrow>
            t' \<in> fst ` set (reminder_query later db')"
    using reminder_where_mono by (simp add: reminder_query_member) blast
  have d: "\<forall>t. t_status t = SqlText ''Done'' \<or> t_reminder_time t = SqlNull \<or>
              (\<exists>r. t_reminder_time t = SqlText r \<and> now < r) \<longrightarrow>
              t \<notin> fst ` set (reminder_query now db)"
    by (auto simp: reminder_query_member reminder_where_True_iff)
  from a b c d show ?thesis by blast
qed

theorem reminder_job_reports_due_tasks_on_every_run_witness:
  "distinct (map u_id (users example_db)) \<and>
   tasks example_db = [write_spec] \<and> t_user_id write_spec \<in> u_id ` set (users example_db) \<and>
   map fst (reminder_query ''2026-01-04T09:01:00.000Z'' example_db) = [write_spec] \<and>
   snd (reminder_job ''2026-01-04T09:01:00.000Z'' example_db) = example_db \<and>
   write_spec \<in> fst ` set (reminder_query ''2026-01-04T09:01:00.000Z'' example_db) \<and>
   ''2026-01-04T09:01:00.000Z'' \<le> ''2026-01-04T09:02:00.000Z'' \<and>
   write_spec \<in> fst ` set (reminder_query ''2026-01-04T09:02:00.000Z'' example_db) \<and>
   write_spec\<lparr>t_status := SqlText ''Done''\<rparr> \<notin>
     fst ` set (reminder_query ''2026-01-04T09:01:00.000Z'' example_db)"
proof -
  have h1: "distinct (map u_id (users example_db))"
    by (simp add: example_db_simps ann_def bob_def)
  have h2: "\<forall>t \<in> set (tasks example_db). t_user_id t \<in> u_id ` set (users example_db)"
    by (simp add: example_db_simps ann_def bob_def write_spec_def)
  have le: "(''2026-01-04T09:01:00.000Z'' :: string) \<le> ''2026-01-04T09:02:00.000Z''"
    by simp
  have due: "(case t_reminder_time write_spec of
                SqlNull \<Rightarrow> False | SqlInt n \<Rightarrow> True | SqlText r \<Rightarrow> r \<le> ''2026-01-04T09:01:00.000Z'') \<and>
             t_status write_spec \<noteq> SqlNull \<and> t_status write_spec \<noteq> SqlText ''Done''"
    by (simp add: write_spec_def)
  have sel: "map fst (reminder_query ''2026-01-04T09:01:00.000Z'' example_db) = [write_spec]"
    using reminder_job_reports_due_tasks_on_every_run [OF h1 h2, of "''2026-01-04T09:01:00.000Z''"] due
    by (simp add: example_db_simps)
  then have mem: "write_spec \<in> fst ` set (reminder_query ''2026-01-04T09:01:00.000Z'' example_db)"
    by (metis list.set_intros(1) set_map)
  have own: "write_spec \<in> set (tasks example_db) \<and>
             t_user_id write_spec \<in> u_id ` set (users example_db)"
    using h2 by (simp add: example_db_simps)
  have again: "write_spec \<in> fst ` set (reminder_query ''2026-01-04T09:02:00.000Z'' example_db)"
    using reminder_job_reports_due_tasks_on_every_run [OF h1 h2, of "''2026-01-04T09:01:00.000Z''"]
      mem le own by blast
  have closed: "write_spec\<lparr>t_status := SqlText ''Done''\<rparr> \<notin>
     fst ` set (reminder_query ''2026-01-04T09:01:00.000Z'' example_db)"
    using reminder_job_reports_due_tasks_on_every_run [OF h1 h2, of "''2026-01-04T09:01:00.000Z''"]
    by simp
  have st: "snd (reminder_job ''2026-01-04T09:01:00.000Z'' example_db) = example_db"
    using reminder_job_reports_due_tasks_on_every_run [OF h1 h2, of "''2026-01-04T09:01:00.000Z''"]
    by simp
  from h1 own sel st mem le again closed show ?thesis by (simp add: example_db_simps)
qed


section \<open>The token of a registration\<close>

lemma split_no_separator: "sep \<notin> set s \<Longrightarrow> split sep s = [s]"
  by (induction s) auto

lemma split_Bearer:
  assumes "CHR '' '' \<notin> set tok"
  shows "split CHR '' '' (''Bearer '' @ tok) = [''Bearer'', tok]"
  using split_no_separator [OF assms] by simp

lemma authenticateToken_two_segments:
  assumes "h \<noteq> []" and "split CHR '' '' h = [scheme, t]" and "t \<noteq> []"
    and "jwt_verify x t (JWT_SECRET x) (nowms div 1000) = Inr d"
  shows "authenticateToken x nowms (Some h) =
           Inr \<lparr>userId = d_userId d, tokenIssuedAt = d_iat d, tokenExpiresAt = d_exp d\<rparr>"
  using assms by (simp add: authenticateToken_def)

lemma authenticateToken_accepts:
  assumes "jwt_contract x"
    and "tok = jwt_sign x p (JWT_SECRET x) opts"
    and "nowms div 1000 < p_iat p + jwt_timespan x (expiresIn opts)"
  shows "authenticateToken x nowms (Some (''Bearer '' @ tok)) =
           Inr \<lparr>userId = p_userId p, tokenIssuedAt = p_iat p,
                tokenExpiresAt = p_iat p + jwt_timespan x (expiresIn opts)\<rparr>"
proof -
  have ne: "tok \<noteq> []" and sp: "CHR '' '' \<notin> set tok"
    using assms(1,2) by (simp_all add: jwt_contract_def)
  have v: "jwt_verify x tok (JWT_SECRET x) (nowms div 1000) =
      Inr \<lparr>d_userId = p_userId p, d_iat = p_iat p,
           d_exp = p_iat p + jwt_timespan x (expiresIn opts)\<rparr>"
    using assms by (simp add: jwt_contract_def)
  have parts: "split CHR '' '' (''Bearer '' @ tok) = [''Bearer'', tok]"
    by (rule split_Bearer [OF sp])
  have h: "''Bearer '' @ tok \<noteq> []" by simp
  show ?thesis
    using authenticateToken_two_segments [OF h parts ne v] by simp
qed

lemma register_201_response:
  assumes "statusCode (fst (register x ts nowms db b)) = 201"
  shows "json_get (json_get (body (fst (register x ts nowms db b))) ''data'') ''token'' =
           JStr (generateToken x nowms (users_seq db + 1))"
    and "json_get (json_get (body (fst (register x ts nowms db b))) ''data'') ''userId'' =
           JNum (int (users_seq db + 1))"
proof -
  obtain u where u: "find (\<lambda>u. u_id u = users_seq db + 1)
      (users db @ [\<lparr>u_id = users_seq db + 1, u_name = sanitizeInput (the_string (b ''name'')),
         u_email = toLowerCase (sanitizeInput (the_string (b ''email''))),
         u_password = bcrypt_hash x (the_string (b ''password'')) 12,
         u_created_at = ts, u_updated_at = ts\<rparr>]) = Some u" and id: "u_id u = users_seq db + 1"
    using find_new_user_Some [of "\<lparr>u_id = users_seq db + 1, u_name = sanitizeInput (the_string (b ''name'')),
         u_email = toLowerCase (sanitizeInput (the_string (b ''email''))),
         u_password = bcrypt_hash x (the_string (b ''password'')) 12,
         u_created_at = ts, u_updated_at = ts\<rparr>" "users db"] by auto
  from assms u id
  show "json_get (json_get (body (fst (register x ts nowms db b))) ''data'') ''token'' =
           JStr (generateToken x nowms (users_seq db + 1))"
    by (auto simp: register_sequential Let_def add_user_def validation_failed_def split: if_splits)
  from assms u id
  show "json_get (json_get (body (fst (register x ts nowms db b))) ''data'') ''userId'' =
           JNum (int (users_seq db + 1))"
    by (auto simp: register_sequential Let_def add_user_def validation_failed_def split: if_splits)
qed

text \<open>
  Claim C8. Let \<open>jsonwebtoken\<close> keep its contract, and let a registration be answered 201.
  Then the row it has added has the next identifier of the sequence, the response carries
  this identifier and the token that \<open>generateToken\<close> has made for it, and for every clock
  before the expiry of the token (its \<open>iat\<close> plus the configured life time)
  \<open>authenticateToken\<close>, given the header \<open>Bearer\<close> followed by the token and using the same
  secret, calls \<open>next()\<close> with exactly this identifier as \<open>req.user.userId\<close>. The
  middleware is a function of the libraries, the clock and the header: it has no access to
  the database.
\<close>

theorem registration_token_authenticates_new_user:
  assumes "jwt_contract x" and "statusCode (fst (register x ts nowms db b)) = 201"
  shows "u_id (last (users (snd (register x ts nowms db b)))) = users_seq db + 1 \<and>
         json_get (json_get (body (fst (register x ts nowms db b))) ''data'') ''userId'' =
           JNum (int (users_seq db + 1)) \<and>
         json_get (json_get (body (fst (register x ts nowms db b))) ''data'') ''token'' =
           JStr (generateToken x nowms (users_seq db + 1)) \<and>
         (\<forall>clock. clock div 1000 < nowms div 1000 + jwt_timespan x (env_or x ''JWT_EXPIRES_IN'' ''24h'') \<longrightarrow>
            authenticateToken x clock (Some (''Bearer '' @ generateToken x nowms (users_seq db + 1))) =
              Inr \<lparr>userId = users_seq db + 1, tokenIssuedAt = nowms div 1000,
                   tokenExpiresAt = nowms div 1000 + jwt_timespan x (env_or x ''JWT_EXPIRES_IN'' ''24h'')\<rparr>)"
proof -
  have row: "u_id (last (users (snd (register x ts nowms db b)))) = users_seq db + 1"
    using register_201D(5) [OF assms(2)] by (simp add: add_user_def)
  have auth: "\<forall>clock. clock div 1000 < nowms div 1000 + jwt_timespan x (env_or x ''JWT_EXPIRES_IN'' ''24h'') \<longrightarrow>
            authenticateToken x clock (Some (''Bearer '' @ generateToken x nowms (users_seq db + 1))) =
              Inr \<lparr>userId = users_seq db + 1, tokenIssuedAt = nowms div 1000,
                   tokenExpiresAt = nowms div 1000 + jwt_timespan x (env_or x ''JWT_EXPIRES_IN'' ''24h'')\<rparr>"
    using authenticateToken_accepts [OF assms(1),
        of "generateToken x nowms (users_seq db + 1)"
           "\<lparr>p_userId = users_seq db + 1, p_iat = nowms div 1000, p_type = ''access''\<rparr>"
           "\<lparr>expiresIn = env_or x ''JWT_EXPIRES_IN'' ''24h'',
             issuer = env_or x ''JWT_ISSUER'' ''task-manager-api'',
             audience = env_or x ''JWT_AUDIENCE'' ''task-manager-users''\<rparr>"]
    by (simp add: generateToken_def)
  from row register_201_response [OF assms(2)] auth show ?thesis by blast
qed

lemma jwt_contract_example_ext: "jwt_contract example_ext"
  by (simp add: jwt_contract_def example_ext_def Let_def)

theorem registration_token_authenticates_new_user_witness:
  "jwt_contract example_ext \<and>
   statusCode (fst (register example_ext ''2026-01-01 00:00:00'' 5000 empty_db ann_registration)) = 201 \<and>
   (6000::nat) div 1000 < 5000 div 1000 + jwt_timespan example_ext (env_or example_ext ''JWT_EXPIRES_IN'' ''24h'') \<and>
   json_get (json_get (body (fst (register example_ext ''2026-01-01 00:00:00'' 5000 empty_db ann_registration)))
      ''data'') ''token'' = JStr ''uiiiii.'' \<and>
   authenticateToken example_ext 6000 (Some ''Bearer uiiiii.'') =
     Inr \<lparr>userId = 1, tokenIssuedAt = 5, tokenExpiresAt = 86405\<rparr>"
proof -
  have ok: "statusCode (fst (register example_ext ''2026-01-01 00:00:00'' 5000 empty_db ann_registration)) = 201"
    by (rule register_created)
       (simp_all add: validateRegistration_ann ann_registration_simps sanitizeInput_Ann
          sanitizedEmail_ann empty_db_def)
  have span: "jwt_timespan example_ext (env_or example_ext ''JWT_EXPIRES_IN'' ''24h'') = 86400"
    by (simp add: example_ext_def)
  have five: "replicate 5 CHR ''i'' = ''iiiii''" by (simp add: numeral_eq_Suc)
  have iat: "(5000::nat) div 1000 = 5" by simp
  have tok: "generateToken example_ext 5000 (users_seq empty_db + 1) = ''uiiiii.''"
    unfolding generateToken_def by (simp add: example_ext_def empty_db_def iat five)
  have seq: "users_seq empty_db + 1 = 1" by (simp add: empty_db_def)
  from registration_token_authenticates_new_user [OF jwt_contract_example_ext ok]
       jwt_contract_example_ext ok span tok seq
  show ?thesis by simp
qed


section \<open>The constraints of the schema\<close>

text \<open>
  The keys that the theorems above assume are kept by every step that writes: every state
  reached from the empty database satisfies \<open>db_inv\<close>.
\<close>

lemma db_inv_empty_db: "db_inv empty_db"
  by (simp add: db_inv_def empty_db_def)

lemma db_inv_example_db: "db_inv example_db"
  by (simp add: db_inv_def example_db_def ann_def bob_def write_spec_def)

lemma db_inv_add_user:
  assumes "db_inv db" and "find (\<lambda>u. u_email u = email) (users db) = None"
  shows "db_inv (add_user db ts name email password)"
proof -
  have e: "email \<notin> u_email ` set (users db)"
    using assms(2) by (auto simp: find_None_iff)
  have i: "users_seq db + 1 \<notin> u_id ` set (users db)"
    using assms(1) by (fastforce simp: db_inv_def)
  show ?thesis
    using assms(1) e i by (auto simp: db_inv_def add_user_def)
qed

lemma db_inv_register:
  assumes "db_inv db"
  shows "db_inv (snd (register x ts nowms db b))"
proof (cases "snd (register x ts nowms db b) = db")
  case True
  then show ?thesis using assms by simp
next
  case False
  then have "find (\<lambda>u. u_email u = toLowerCase (sanitizeInput (the_string (b ''email'')))) (users db) = None
      \<and> snd (register x ts nowms db b) =
           add_user db ts (sanitizeInput (the_string (b ''name'')))
             (toLowerCase (sanitizeInput (the_string (b ''email''))))
             (bcrypt_hash x (the_string (b ''password'')) 12)"
    by (auto simp: register_sequential Let_def split: if_splits option.splits)
  then show ?thesis using db_inv_add_user [OF assms] by simp
qed

lemma db_inv_register_insert:
  assumes "db_inv db"
  shows "db_inv (snd (register_insert x ts nowms db p))"
proof -
  obtain name email password where p: "p = (name, email, password)"
    by (cases p) auto
  show ?thesis
  proof (cases "email \<in> set (map u_email (users db))")
    case True
    then show ?thesis using assms register_insert_refused [OF True] by (simp add: p)
  next
    case False
    then have "find (\<lambda>u. u_email u = email) (users db) = None"
      by (auto simp: find_None_iff)
    then show ?thesis
      using db_inv_add_user [OF assms] register_insert_accepted(2) [OF False] by (simp add: p)
  qed
qed

lemma db_inv_insert_task:
  assumes "db_inv db" and "uid \<in> set (map u_id (users db))"
  shows "db_inv (insert_task db ts title description status deadline reminder_time uid)"
proof -
  have i: "tasks_seq db + 1 \<notin> t_id ` set (tasks db)"
    using assms(1) by (fastforce simp: db_inv_def)
  show ?thesis
    using assms i by (auto simp: db_inv_def insert_task_def)
qed

lemma db_inv_createTask:
  assumes "db_inv db"
  shows "db_inv (snd (createTask ts db uid b))"
proof (cases "snd (createTask ts db uid b) = db")
  case True
  then show ?thesis using assms by simp
next
  case False
  then obtain title d st dl rt where "uid \<in> set (map u_id (users db))"
      and "snd (createTask ts db uid b) = insert_task db ts title d st dl rt uid"
    by (auto simp: createTask_def Let_def split: if_splits option.splits)
  then show ?thesis using db_inv_insert_task [OF assms] by simp
qed

lemma db_inv_tasks_map:
  assumes "db_inv db" and "\<And>t. t_id (f t) = t_id t" and "\<And>t. t_user_id (f t) = t_user_id t"
  shows "db_inv (db\<lparr>tasks := map f (tasks db)\<rparr>)"
proof -
  have "t_id \<circ> f = t_id"
    by (rule ext) (simp add: assms(2))
  then show ?thesis
    using assms by (simp add: db_inv_def)
qed

lemma db_inv_run_update:
  assumes "db_inv db"
  shows "db_inv (run_update db (updates_of b) ts i uid)"
  unfolding run_update_def
  by (rule db_inv_tasks_map [OF assms]) (simp_all add: fold_updates_of)

lemma db_inv_updateTask:
  assumes "db_inv db"
  shows "db_inv (snd (updateTask ts db uid i b))"
proof (cases "statusCode (fst (updateTask ts db uid i b)) = 200")
  case True
  then show ?thesis using updateTask_200D(2) db_inv_run_update [OF assms] by simp
next
  case False
  then show ?thesis using updateTask_not_200_unchanged assms by simp
qed

end
